theory Spec2Isabelle
  imports Main "HOL-Library.Sublist"
begin

section \<open>A PDF chapter splitter (\<^verbatim>\<open>split_by_section.py\<close>), embedded in HOL\<close>

text \<open>
  The class \<^verbatim>\<open>PDFChapterSplitter\<close> reads the bookmarks of a PDF with pikepdf, turns
  them into (title, page index) pairs, sorts and deduplicates them, and writes one file
  per pair with PyPDF2. The theory follows the source function by function. What the
  source takes from its surroundings (the Python runtime, the operating system, the two
  PDF libraries, the file system) is gathered in the record \<open>env\<close>, and what it does to
  them (directories made, files written, lines printed) is returned as a list of events,
  in the order in which they happen.
\<close>

subsection \<open>Python strings\<close>

text \<open>
  A Python \<^verbatim>\<open>str\<close> is a sequence of Unicode code points, and \<^verbatim>\<open>len\<close> and slicing count
  code points. A character is therefore a natural number (its code point) and not an
  8-bit \<^typ>\<open>char\<close>; \<open>py\<close> turns an ASCII literal into such a string.
\<close>

type_synonym pychar = nat
type_synonym pystr = "pychar list"

definition py :: "string \<Rightarrow> pystr" where
  "py s = map of_char s"

text \<open>\<^verbatim>\<open>s.endswith(t)\<close>.\<close>

definition endswith :: "pystr \<Rightarrow> pystr \<Rightarrow> bool" where
  "endswith s t = (length t \<le> length s \<and> drop (length s - length t) s = t)"

text \<open>
  \<^verbatim>\<open>s.strip()\<close> removes leading and trailing whitespace; which code points are
  whitespace is the runtime's table (\<^verbatim>\<open>str.isspace\<close>), taken as the parameter \<open>sp\<close>.
  \<^verbatim>\<open>s.rstrip(cs)\<close> removes trailing characters that occur in \<open>cs\<close>.
\<close>

definition rstrip :: "(pychar \<Rightarrow> bool) \<Rightarrow> pystr \<Rightarrow> pystr" where
  "rstrip p s = rev (dropWhile p (rev s))"

definition strip :: "(pychar \<Rightarrow> bool) \<Rightarrow> pystr \<Rightarrow> pystr" where
  "strip sp s = rstrip sp (dropWhile sp s)"

definition rstrip_chars :: "pystr \<Rightarrow> pystr \<Rightarrow> pystr" where
  "rstrip_chars cs s = rstrip (\<lambda>c. c \<in> set cs) s"

text \<open>\<^verbatim>\<open>str(n)\<close> for a non-negative integer: its decimal digits, most significant first.\<close>

fun str_nat :: "nat \<Rightarrow> pystr" where
  "str_nat n = (if n < 10 then [48 + n] else str_nat (n div 10) @ [48 + n mod 10])"

text \<open>
  \<^verbatim>\<open>s.zfill(width)\<close> pads with the digit 0 on the left up to \<open>width\<close>; a leading sign
  stays in front of the padding.
\<close>

definition zfill :: "nat \<Rightarrow> pystr \<Rightarrow> pystr" where
  "zfill width s =
     (if width \<le> length s then s
      else (case s of
              c # cs \<Rightarrow>
                if c = 43 \<or> c = 45 then c # replicate (width - length s) 48 @ cs
                else replicate (width - length s) 48 @ s
            | [] \<Rightarrow> replicate width 48))"

text \<open>
  The whitespace table of CPython's \<^verbatim>\<open>str.isspace\<close>, for the concrete runs below. No
  theorem depends on it: each holds for every table.
\<close>

definition unicode_isspace :: "pychar \<Rightarrow> bool" where
  "unicode_isspace c =
     ((9 \<le> c \<and> c \<le> 13) \<or> (28 \<le> c \<and> c \<le> 32) \<or> c = 133 \<or> c = 160 \<or> c = 5760
      \<or> (8192 \<le> c \<and> c \<le> 8202) \<or> c = 8232 \<or> c = 8233 \<or> c = 8239 \<or> c = 8287
      \<or> c = 12288)"

subsection \<open>The document, as pikepdf presents it\<close>

text \<open>
  A page is known by its object (pikepdf's \<^verbatim>\<open>page.obj\<close>), here a number. A bookmark's
  \<^verbatim>\<open>destination\<close> is \<^verbatim>\<open>None\<close>, an array whose first item is the page object, or a
  value that has no length (a named destination, a pikepdf \<^verbatim>\<open>Name\<close> or \<^verbatim>\<open>String\<close>),
  on which \<^verbatim>\<open>len(dest)\<close> raises \<^verbatim>\<open>TypeError\<close>.

  The source probes each attribute with \<^verbatim>\<open>hasattr\<close>, so each field of a bookmark is
  optional: \<open>None\<close> is an attribute that is absent.
\<close>

type_synonym pdfobj = nat

datatype destination = DestNone | DestArray "pdfobj list" | DestUnsized

datatype outline =
  Outline (title: "pystr option") (destination: "destination option")
    (children: "outline list option")

text \<open>
  \<^verbatim>\<open>pdf.open_outline().root\<close> and \<^verbatim>\<open>pdf.pages\<close> of an opened document. What PyPDF2's
  reader presents for the same file is a separate part of the surroundings.
\<close>

record pdf =
  root :: "outline list option"
  pages :: "pdfobj list"

type_synonym pdf_section = "pystr \<times> nat"

datatype exception =
  FileNotFoundError pystr | TypeError | IndexError | PdfReadError | PageCopyError

subsection \<open>The surroundings of a run\<close>

text \<open>
  \<^item> \<open>isspace\<close>, \<open>lower\<close>: \<^verbatim>\<open>str.isspace\<close> and \<^verbatim>\<open>str.lower\<close> of the runtime.
  \<^item> \<open>normpath\<close>, \<open>path_join\<close>: \<^verbatim>\<open>os.path.normpath\<close> and \<^verbatim>\<open>os.path.join\<close> of the
    operating system.
  \<^item> \<open>set_iter\<close>: the order in which \<^verbatim>\<open>set(sections)\<close> is iterated. Python leaves it
    open: it follows the hashes of the elements, and the hash of a \<^verbatim>\<open>str\<close> is salted
    anew for each interpreter process. A well-behaved \<open>set_iter\<close> returns every element
    of its argument once (\<open>iterates_set\<close> below).
  \<^item> \<open>path_exists\<close>: \<^verbatim>\<open>os.path.exists\<close>.
  \<^item> \<open>pdf_at\<close>: the document that \<^verbatim>\<open>pikepdf.open\<close> finds at a path, \<open>None\<close> when pikepdf
    cannot open the file.
  \<^item> \<open>reader_at\<close>: the pages that PyPDF2's \<^verbatim>\<open>PdfReader\<close> presents for the file at a path,
    \<open>None\<close> when \<^verbatim>\<open>PdfReader(path)\<close> or \<^verbatim>\<open>len(reader.pages)\<close> raises
    (\<open>PdfReadError\<close> stands for whatever is raised). The two libraries parse the file
    independently: one may fail where the other succeeds, and their page counts need not
    agree.
  \<^item> \<open>can_copy\<close>: whether \<^verbatim>\<open>writer.add_page(reader.pages[page_num])\<close> succeeds for a page
    number within the reader's pages; where it does not, the library raises (an encrypted
    file, a broken page object), which \<open>PageCopyError\<close> stands for.
  \<^item> \<open>can_write\<close>: whether opening the path for writing and writing the document
    succeeds. A write that fails is taken to leave no file behind.
  \<^item> \<open>traceback_frames\<close>: the stack frames that \<^verbatim>\<open>traceback.format_exc()\<close> prints
    above its last line.
\<close>

record env =
  isspace :: "pychar \<Rightarrow> bool"
  lower :: "pystr \<Rightarrow> pystr"
  normpath :: "pystr \<Rightarrow> pystr"
  path_join :: "pystr \<Rightarrow> pystr \<Rightarrow> pystr"
  set_iter :: "pdf_section list \<Rightarrow> pdf_section list"
  path_exists :: "pystr \<Rightarrow> bool"
  pdf_at :: "pystr \<Rightarrow> pdf option"
  reader_at :: "pystr \<Rightarrow> pdfobj list option"
  can_copy :: "nat \<Rightarrow> bool"
  can_write :: "pystr \<Rightarrow> bool"
  traceback_frames :: "pystr"

definition iterates_set :: "(pdf_section list \<Rightarrow> pdf_section list) \<Rightarrow> pdf_section list \<Rightarrow> bool" where
  "iterates_set it xs = (distinct (it xs) \<and> set (it xs) = set xs)"

text \<open>The fields of \<^verbatim>\<open>self\<close>.\<close>

record splitter =
  debug :: bool
  input_pdf :: pystr
  output_dir :: pystr

datatype event =
  MakeDirs pystr
  | WriteFile pystr pystr "pdfobj list"
  | Print pystr

text \<open>
  \<open>WriteFile dir name ps\<close>: the file \<open>name\<close> of the directory \<open>dir\<close> (the path
  \<^verbatim>\<open>os.path.join(dir, name)\<close>) now holds a document with the pages \<open>ps\<close>. The lines
  that only \<^verbatim>\<open>_debug_print\<close> writes inside \<^verbatim>\<open>_extract_outline\<close> and \<^verbatim>\<open>split_pdf\<close> are
  diagnostics and are left out of the events.
\<close>

subsection \<open>\<^verbatim>\<open>_extract_outline\<close>\<close>

text \<open>
  \<^verbatim>\<open>for i, page in enumerate(pdf.pages): if page.obj == page_obj: ...; break\<close>, with the
  counter of \<^verbatim>\<open>enumerate\<close> as third argument: the index of the first page that is the
  object, if there is one.
\<close>

fun find_page :: "pdfobj list \<Rightarrow> pdfobj \<Rightarrow> nat \<Rightarrow> nat option" where
  "find_page [] page_obj i = None"
| "find_page (page # rest) page_obj i =
     (if page = page_obj then Some i else find_page rest page_obj (Suc i))"

text \<open>
  The lines 59 to 70 for one bookmark with title \<open>t\<close>: what they append to
  \<^verbatim>\<open>sections\<close>, or the exception they raise.
\<close>

fun resolve_destination ::
  "destination option \<Rightarrow> pdfobj list \<Rightarrow> pystr \<Rightarrow> exception + pdf_section list" where
  "resolve_destination None pgs t = Inr []"
| "resolve_destination (Some DestNone) pgs t = Inr []"
| "resolve_destination (Some DestUnsized) pgs t = Inl TypeError"
| "resolve_destination (Some (DestArray [])) pgs t = Inr []"
| "resolve_destination (Some (DestArray (page_obj # _))) pgs t =
     (case find_page pgs page_obj 0 of
        None \<Rightarrow> Inr []
      | Some i \<Rightarrow> Inr [(t, i)])"

text \<open>
  \<open>process_item\<close> is the body of the \<^verbatim>\<open>for\<close> loop of \<^verbatim>\<open>process_outlines\<close> for one
  bookmark: the sections it adds, or the exception that leaves the loop.
  \<open>process_outlines\<close> is the function itself. Its \<^verbatim>\<open>try\<close> encloses the whole loop, so an
  exception raised for one bookmark ends the loop: the sections gathered so far are
  returned and the bookmarks after it in the same list are not looked at. The recursive
  call for the children catches its own exceptions and so never raises.
\<close>

fun process_item :: "outline \<Rightarrow> pdfobj list \<Rightarrow> exception + pdf_section list"
  and process_outlines :: "outline list \<Rightarrow> pdfobj list \<Rightarrow> pdf_section list" where
  "process_item (Outline None d cs) pgs = Inr []"
| "process_item (Outline (Some t) d None) pgs = resolve_destination d pgs t"
| "process_item (Outline (Some t) d (Some cs)) pgs =
     (case resolve_destination d pgs t of
        Inl e \<Rightarrow> Inl e
      | Inr found \<Rightarrow> Inr (found @ process_outlines cs pgs))"
| "process_outlines [] pgs = []"
| "process_outlines (item # rest) pgs =
     (case process_item item pgs of
        Inl e \<Rightarrow> []
      | Inr found \<Rightarrow> found @ process_outlines rest pgs)"

definition extract_outline :: "env \<Rightarrow> pystr \<Rightarrow> pdf_section list" where
  "extract_outline e path =
     (case pdf_at e path of
        None \<Rightarrow> []
      | Some doc \<Rightarrow>
          (case root doc of
             None \<Rightarrow> []
           | Some outlines \<Rightarrow> process_outlines outlines (pages doc)))"

subsection \<open>\<^verbatim>\<open>_sanitize_filename\<close>\<close>

text \<open>The characters of \<^verbatim>\<open>'<>:"/\\|?*'\<close>, by code point.\<close>

definition invalid_chars :: pystr where
  "invalid_chars = [60, 62, 58, 34, 47, 92, 124, 63, 42]"

definition sanitize_filename :: "env \<Rightarrow> pystr \<Rightarrow> pystr" where
  "sanitize_filename e t =
     (let filename = filter (\<lambda>c. c \<notin> set invalid_chars) t;
          filename = rstrip_chars (py ''.'') (take 50 (strip (isspace e) filename))
      in if filename \<noteq> [] then filename else py ''section'')"

text \<open>The value of \<^verbatim>\<open>filename\<close> after line 100, before the fallback of line 101.\<close>

definition cleaned :: "env \<Rightarrow> pystr \<Rightarrow> pystr" where
  "cleaned e t =
     rstrip_chars (py ''.'')
       (take 50 (strip (isspace e) (filter (\<lambda>c. c \<notin> set invalid_chars) t)))"

subsection \<open>\<^verbatim>\<open>split_pdf\<close>\<close>

text \<open>\<^verbatim>\<open>sorted(set(sections), key=lambda x: x[1])\<close>; both sorts are stable.\<close>

definition ordered_sections :: "env \<Rightarrow> pdf_section list \<Rightarrow> pdf_section list" where
  "ordered_sections e sections = sort_key snd (set_iter e sections)"

text \<open>\<^verbatim>\<open>sections.append(('End', len(reader.pages)))\<close>.\<close>

definition with_end :: "pdf_section list \<Rightarrow> pdfobj list \<Rightarrow> pdf_section list" where
  "with_end sections pgs = sections @ [(py ''End'', length pgs)]"

text \<open>
  \<^verbatim>\<open>for page_num in range(start_page, end_page): writer.add_page(reader.pages[page_num])\<close>
  over the list of page numbers, \<open>pgs\<close> being \<^verbatim>\<open>reader.pages\<close>: the pages of the writer, or
  the first exception: \<^verbatim>\<open>IndexError\<close> from \<^verbatim>\<open>reader.pages[page_num]\<close> when the number is
  out of range, or the library's exception when the page cannot be copied.
\<close>

fun add_pages :: "env \<Rightarrow> pdfobj list \<Rightarrow> nat list \<Rightarrow> exception + pdfobj list" where
  "add_pages e pgs [] = Inr []"
| "add_pages e pgs (page_num # rest) =
     (if \<not> page_num < length pgs then Inl IndexError
      else if \<not> can_copy e page_num then Inl PageCopyError
      else (case add_pages e pgs rest of
              Inl ex \<Rightarrow> Inl ex
            | Inr written \<Rightarrow> Inr (pgs ! page_num # written)))"

definition section_range :: "pdf_section list \<Rightarrow> nat \<Rightarrow> nat \<times> nat" where
  "section_range sections i = (snd (sections ! i), snd (sections ! (i + 1)))"

definition output_filename :: "env \<Rightarrow> nat \<Rightarrow> pystr \<Rightarrow> pystr" where
  "output_filename e i t =
     zfill 2 (str_nat (i + 1)) @ py ''_'' @ sanitize_filename e t @ py ''.pdf''"

definition created_message :: "pystr \<Rightarrow> nat \<Rightarrow> nat \<Rightarrow> pystr" where
  "created_message output_path start_page end_page =
     py ''Created: '' @ output_path @ py '' (Pages '' @ str_nat (start_page + 1)
       @ py ''-'' @ str_nat end_page @ py '')''"

text \<open>
  One round of the loop of line 131, for an index \<open>i\<close> below \<open>length sections - 1\<close>. An
  exception (from the page copy, or from writing the file) is caught inside the round
  and the round then leaves no event. \<open>pgs\<close> is \<^verbatim>\<open>reader.pages\<close>.
\<close>

definition split_section :: "env \<Rightarrow> splitter \<Rightarrow> pdfobj list \<Rightarrow> pdf_section list \<Rightarrow> nat \<Rightarrow> event list" where
  "split_section e self pgs sections i =
     (let t = fst (sections ! i);
          (start_page, end_page) = section_range sections i
      in case add_pages e pgs [start_page..<end_page] of
           Inl err \<Rightarrow> []
         | Inr written \<Rightarrow>
             (let name = output_filename e i t;
                  output_path = path_join e (output_dir self) name
              in if can_write e output_path
                 then [WriteFile (output_dir self) name written,
                       Print (created_message output_path start_page end_page)]
                 else []))"

text \<open>
  The \<^verbatim>\<open>try\<close> block of round \<open>i\<close> runs to its end: the page copy and the write raise
  nothing.
\<close>

definition round_succeeds :: "env \<Rightarrow> splitter \<Rightarrow> pdfobj list \<Rightarrow> pdf_section list \<Rightarrow> nat \<Rightarrow> bool" where
  "round_succeeds e self pgs sections i =
     (\<not> isl (add_pages e pgs
               [fst (section_range sections i)..<snd (section_range sections i)])
      \<and> can_write e
            (path_join e (output_dir self) (output_filename e i (fst (sections ! i)))))"

text \<open>
  \<open>split_pdf\<close> returns the events of the call and the exception that leaves it, if any.
  \<^verbatim>\<open>PdfReader(self.input_pdf)\<close> of line 124 and \<^verbatim>\<open>len(reader.pages)\<close> of the lines 125
  and 128 stand outside every \<^verbatim>\<open>try\<close> of \<^verbatim>\<open>split_pdf\<close>: what they raise leaves the call.
\<close>

definition split_pdf :: "env \<Rightarrow> splitter \<Rightarrow> event list \<times> exception option" where
  "split_pdf e self =
     (if \<not> path_exists e (input_pdf self)
      then ([], Some (FileNotFoundError (py ''Input PDF not found: '' @ input_pdf self)))
      else
        (let sections = extract_outline e (input_pdf self) in
         if sections = []
         then ([MakeDirs (output_dir self),
                Print (py ''No valid outline found in PDF. Cannot split.'')], None)
         else
           (case reader_at e (input_pdf self) of
              None \<Rightarrow> ([MakeDirs (output_dir self)], Some PdfReadError)
            | Some reader_pages \<Rightarrow>
                (let sections = with_end (ordered_sections e sections) reader_pages
                 in (MakeDirs (output_dir self)
                       # concat (map (split_section e self reader_pages sections)
                                   [0..<length sections - 1]),
                     None)))))"

text \<open>
  The page numbers that the loops of the lines 131 and 139 look up, in the order in
  which they do: for each round \<open>i\<close>, those of \<^verbatim>\<open>range(start_page, end_page)\<close>.
\<close>

definition copied_page_numbers :: "pdf_section list \<Rightarrow> nat list" where
  "copied_page_numbers sections =
     concat (map (\<lambda>i. [fst (section_range sections i)..<snd (section_range sections i)])
               [0..<length sections - 1])"

text \<open>
  The files that a list of events leaves behind, in the order of writing: name and
  pages of each \<open>WriteFile\<close>.
\<close>

fun written_files :: "event list \<Rightarrow> (pystr \<times> pdfobj list) list" where
  "written_files [] = []"
| "written_files (WriteFile d name ps # evs) = (name, ps) # written_files evs"
| "written_files (ev # evs) = written_files evs"

text \<open>
  Reading an output file name back: the number that the digits before the first
  underscore denote. It is used to tell the names of different rounds apart.
\<close>

definition nat_of_digits :: "pystr \<Rightarrow> nat" where
  "nat_of_digits s = foldl (\<lambda>a c. 10 * a + (c - 48)) 0 s"

definition ordinal_of :: "pystr \<Rightarrow> nat" where
  "ordinal_of name = nat_of_digits (takeWhile (\<lambda>c. c \<noteq> 95) name)"

text \<open>The sections of a sequence that start at the page \<open>p\<close>.\<close>

definition sections_at :: "nat \<Rightarrow> pdf_section list \<Rightarrow> pdf_section list" where
  "sections_at p sections = filter (\<lambda>s. snd s = p) sections"

text \<open>The directories made and the lines printed, likewise.\<close>

fun made_dirs :: "event list \<Rightarrow> pystr list" where
  "made_dirs [] = []"
| "made_dirs (MakeDirs d # evs) = d # made_dirs evs"
| "made_dirs (ev # evs) = made_dirs evs"

fun printed :: "event list \<Rightarrow> pystr list" where
  "printed [] = []"
| "printed (Print line # evs) = line # printed evs"
| "printed (ev # evs) = printed evs"

subsection \<open>\<^verbatim>\<open>__init__\<close>\<close>

text \<open>
  \<^verbatim>\<open>str(e)\<close> and the name of the class of an exception. Only \<^verbatim>\<open>FileNotFoundError\<close> is
  raised with a message of the source's own; the messages of the libraries' exceptions
  are not modelled and read as the empty string.
\<close>

fun exception_str :: "exception \<Rightarrow> pystr" where
  "exception_str (FileNotFoundError msg) = msg"
| "exception_str TypeError = []"
| "exception_str IndexError = []"
| "exception_str PdfReadError = []"
| "exception_str PageCopyError = []"

fun exception_name :: "exception \<Rightarrow> pystr" where
  "exception_name (FileNotFoundError msg) = py ''FileNotFoundError''"
| "exception_name TypeError = py ''TypeError''"
| "exception_name IndexError = py ''IndexError''"
| "exception_name PdfReadError = py ''PdfReadError''"
| "exception_name PageCopyError = py ''PageCopyError''"

text \<open>
  \<^verbatim>\<open>traceback.format_exc()\<close>: the stack frames, then a last line with the class of the
  exception and its message.
\<close>

definition format_exc :: "env \<Rightarrow> exception \<Rightarrow> pystr" where
  "format_exc e ex =
     traceback_frames e @ exception_name ex @ py '': '' @ exception_str ex @ [10]"

definition new_splitter :: "env \<Rightarrow> pystr \<Rightarrow> pystr \<Rightarrow> bool \<Rightarrow> splitter" where
  "new_splitter e input_pdf0 output_dir0 debug0 =
     (let p = normpath e input_pdf0;
          p = (if \<not> endswith (lower e p) (py ''.pdf'') then p @ py ''.pdf'' else p)
      in \<lparr>debug = debug0, input_pdf = p, output_dir = normpath e output_dir0\<rparr>)"

definition init :: "env \<Rightarrow> pystr \<Rightarrow> pystr \<Rightarrow> bool \<Rightarrow> event list" where
  "init e input_pdf0 output_dir0 debug0 =
     (let self = new_splitter e input_pdf0 output_dir0 debug0
      in case split_pdf e self of
           (events, None) \<Rightarrow>
             events @ [Print (py ''Successfully split PDF into sections in: '' @ output_dir self)]
         | (events, Some ex) \<Rightarrow>
             events @
               (if debug self
                then [Print (py ''Full error traceback:''), Print (format_exc e ex)]
                else [Print (py ''Error splitting PDF: '' @ exception_str ex)]))"

subsection \<open>Concrete surroundings and documents\<close>

text \<open>
  A POSIX-like instance of the surroundings, around a document \<open>doc\<close> stored at
  \<^verbatim>\<open>book.pdf\<close>: both libraries open it and see the same pages, every page copy and
  every write succeeds, and the set is iterated in the order of first occurrence. The
  theorems below are evaluated on it.
\<close>

definition ascii_lower :: "pystr \<Rightarrow> pystr" where
  "ascii_lower s = map (\<lambda>c. if 65 \<le> c \<and> c \<le> 90 then c + 32 else c) s"

definition example_env :: "pdf \<Rightarrow> env" where
  "example_env doc =
     \<lparr>isspace = unicode_isspace,
      lower = ascii_lower,
      normpath = (\<lambda>p. p),
      path_join = (\<lambda>d f. d @ py ''/'' @ f),
      set_iter = remdups,
      path_exists = (\<lambda>p. p = py ''book.pdf''),
      pdf_at = (\<lambda>p. if p = py ''book.pdf'' then Some doc else None),
      reader_at = (\<lambda>p. if p = py ''book.pdf'' then Some (pages doc) else None),
      can_copy = (\<lambda>page_num. True),
      can_write = (\<lambda>p. True),
      traceback_frames = py ''Traceback (most recent call last):'' @ [10]\<rparr>"

text \<open>A bookmark without children whose destination is the page object \<open>obj\<close>.\<close>

definition bookmark :: "string \<Rightarrow> pdfobj \<Rightarrow> outline" where
  "bookmark t obj = Outline (Some (py t)) (Some (DestArray [obj])) (Some [])"

text \<open>Five pages (the objects 10 to 14) and three chapters, at the pages 0, 2 and 3.\<close>

definition book :: pdf where
  "book = \<lparr>root = Some [bookmark ''A'' 10, bookmark ''B'' 12, bookmark ''C'' 13],
            pages = [10, 11, 12, 13, 14]\<rparr>"

text \<open>Five pages again, and two chapters whose first one starts at page 2.\<close>

definition late_book :: pdf where
  "late_book = \<lparr>root = Some [bookmark ''A'' 12, bookmark ''B'' 13],
                 pages = [10, 11, 12, 13, 14]\<rparr>"

text \<open>Four pages and two bookmarks with different titles on the same page 2.\<close>

definition twins :: pdf where
  "twins = \<lparr>root = Some [bookmark ''A'' 12, bookmark ''B'' 12], pages = [10, 11, 12, 13]\<rparr>"

text \<open>The splitter for \<^verbatim>\<open>book.pdf\<close> and the output directory \<^verbatim>\<open>out\<close>.\<close>

definition example_self :: splitter where
  "example_self = \<lparr>debug = False, input_pdf = py ''book.pdf'', output_dir = py ''out''\<rparr>"

text \<open>Four pages; the bookmark A occurs twice, with the same title and the same page.\<close>

definition repeated :: pdf where
  "repeated = \<lparr>root = Some [bookmark ''A'' 12, bookmark ''A'' 12, bookmark ''B'' 13],
                pages = [10, 11, 12, 13]\<rparr>"

text \<open>
  The same surroundings in another interpreter process, in which the set happens to be
  iterated in the opposite order.
\<close>

definition reversed_iter :: "pdf_section list \<Rightarrow> pdf_section list" where
  "reversed_iter xs = rev (remdups xs)"

definition other_env :: "pdf \<Rightarrow> env" where
  "other_env doc = (example_env doc)\<lparr>set_iter := reversed_iter\<rparr>"

text \<open>The same surroundings, but PyPDF2 cannot read the file that pikepdf opens.\<close>

definition unreadable_env :: "pdf \<Rightarrow> env" where
  "unreadable_env doc = (example_env doc)\<lparr>reader_at := (\<lambda>p. None)\<rparr>"

text \<open>
  Four pages; the first bookmark has a named destination, the second one points to
  page 2.
\<close>

definition intro_book :: pdf where
  "intro_book =
     \<lparr>root = Some [Outline (Some (py ''Intro'')) (Some DestUnsized) (Some []),
                   bookmark ''A'' 12],
      pages = [10, 11, 12, 13]\<rparr>"

section \<open>Properties\<close>

subsection \<open>File names\<close>

lemma py_section: "py ''section'' = [115, 101, 99, 116, 105, 111, 110]"
  by (simp add: py_def)

lemma py_dot: "py ''.'' = [46]"
  by (simp add: py_def)

lemma set_rstrip: "set (rstrip p s) \<subseteq> set s"
  unfolding rstrip_def using set_dropWhileD[of _ p "rev s"] by auto

lemma length_rstrip: "length (rstrip p s) \<le> length s"
  unfolding rstrip_def using length_dropWhile_le[of p "rev s"] by simp

lemma last_rstrip: "rstrip p s \<noteq> [] \<Longrightarrow> \<not> p (last (rstrip p s))"
  unfolding rstrip_def using hd_dropWhile[of p "rev s"] by (simp add: last_rev)

lemma set_strip: "set (strip sp s) \<subseteq> set s"
  unfolding strip_def
  using set_rstrip[of sp "dropWhile sp s"] set_dropWhileD[of _ sp s] by auto

lemma sanitize_cleaned:
  "sanitize_filename e t = (if cleaned e t \<noteq> [] then cleaned e t else py ''section'')"
  by (simp add: sanitize_filename_def cleaned_def Let_def)

lemma set_cleaned: "set (cleaned e t) \<inter> set invalid_chars = {}"
proof -
  let ?kept = "filter (\<lambda>c. c \<notin> set invalid_chars) t"
  have "set (cleaned e t) \<subseteq> set (take 50 (strip (isspace e) ?kept))"
    unfolding cleaned_def rstrip_chars_def by (rule set_rstrip)
  also have "\<dots> \<subseteq> set (strip (isspace e) ?kept)"
    by (rule set_take_subset)
  also have "\<dots> \<subseteq> set ?kept"
    by (rule set_strip)
  finally show ?thesis by auto
qed

lemma length_cleaned: "length (cleaned e t) \<le> 50"
proof -
  have "length (cleaned e t)
          \<le> length (take 50 (strip (isspace e) (filter (\<lambda>c. c \<notin> set invalid_chars) t)))"
    unfolding cleaned_def rstrip_chars_def by (rule length_rstrip)
  then show ?thesis by simp
qed

lemma last_cleaned: "cleaned e t \<noteq> [] \<Longrightarrow> last (cleaned e t) \<noteq> 46"
  unfolding cleaned_def rstrip_chars_def
  using last_rstrip[of "\<lambda>c. c \<in> set (py ''.'')"] by (auto simp: py_dot)

lemma endswith_dot: "endswith s (py ''.'') \<longleftrightarrow> s \<noteq> [] \<and> last s = 46"
proof (cases s rule: rev_cases)
  case Nil
  then show ?thesis by (simp add: endswith_def py_dot)
next
  case (snoc ys y)
  then show ?thesis by (auto simp: endswith_def py_dot)
qed

text \<open>
  Claim C5. For every title, and whatever the runtime counts as whitespace, the name
  that \<^verbatim>\<open>_sanitize_filename\<close> returns holds no character of the denylist
  \<^verbatim>\<open>< > : " / \ | ? *\<close>, has at most 50 characters and does not end with a dot; and when
  filtering, trimming, truncating and removing the trailing dots leave nothing, it is
  the literal \<^verbatim>\<open>section\<close>.
\<close>

theorem sanitize_filename_safe:
  "set (sanitize_filename e t) \<inter> set invalid_chars = {}
   \<and> length (sanitize_filename e t) \<le> 50
   \<and> \<not> endswith (sanitize_filename e t) (py ''.'')
   \<and> (rstrip_chars (py ''.'')
         (take 50 (strip (isspace e) (filter (\<lambda>c. c \<notin> set invalid_chars) t))) = []
        \<longrightarrow> sanitize_filename e t = py ''section'')"
proof -
  have no_invalid: "set (sanitize_filename e t) \<inter> set invalid_chars = {}"
    using set_cleaned[of e t] by (simp add: sanitize_cleaned py_section invalid_chars_def)
  have short: "length (sanitize_filename e t) \<le> 50"
    using length_cleaned[of e t] by (simp add: sanitize_cleaned py_section)
  have no_dot: "\<not> endswith (sanitize_filename e t) (py ''.'')"
    using last_cleaned[of e t] by (simp add: sanitize_cleaned endswith_dot py_section)
  have fallback: "cleaned e t = [] \<longrightarrow> sanitize_filename e t = py ''section''"
    by (simp add: sanitize_cleaned)
  from no_invalid short no_dot fallback show ?thesis
    unfolding cleaned_def by blast
qed

text \<open>The title \<^verbatim>\<open>" ?*.. "\<close> has nothing left after the cleaning and becomes \<^verbatim>\<open>section\<close>.\<close>

theorem sanitize_filename_safe_witness:
  "rstrip_chars (py ''.'')
     (take 50 (strip (isspace (example_env book))
        (filter (\<lambda>c. c \<notin> set invalid_chars) (py '' ?*.. '')))) = []
   \<and> sanitize_filename (example_env book) (py '' ?*.. '') = py ''section''
   \<and> length (sanitize_filename (example_env book) (py '' ?*.. '')) \<le> 50"
proof -
  have nothing_left:
    "rstrip_chars (py ''.'')
       (take 50 (strip (isspace (example_env book))
          (filter (\<lambda>c. c \<notin> set invalid_chars) (py '' ?*.. '')))) = []"
    by (simp add: example_env_def rstrip_chars_def strip_def rstrip_def py_def
        invalid_chars_def unicode_isspace_def)
  from sanitize_filename_safe[of "example_env book" "py '' ?*.. ''"] nothing_left
  show ?thesis by blast
qed

subsection \<open>Page indexes stay inside the document\<close>

lemma find_page_bounds:
  "find_page pgs obj k = Some i \<Longrightarrow> k \<le> i \<and> i < k + length pgs \<and> pgs ! (i - k) = obj"
proof (induction pgs arbitrary: k)
  case Nil
  then show ?case by simp
next
  case (Cons page rest)
  show ?case
  proof (cases "page = obj")
    case True
    with Cons.prems show ?thesis by simp
  next
    case False
    with Cons.prems have "find_page rest obj (Suc k) = Some i" by simp
    from Cons.IH[OF this] show ?thesis by (simp add: Suc_diff_le)
  qed
qed

lemma resolve_destination_bound:
  "resolve_destination d pgs t = Inr found \<Longrightarrow> s \<in> set found \<Longrightarrow> snd s < length pgs"
  by (induction d pgs t rule: resolve_destination.induct)
     (auto split: option.splits dest: find_page_bounds)

lemma process_bound:
  "(\<forall>found s. process_item item pgs = Inr found \<longrightarrow> s \<in> set found \<longrightarrow> snd s < length pgs)"
  "(\<forall>s. s \<in> set (process_outlines items pgs) \<longrightarrow> snd s < length pgs)"
proof (induction item pgs and items pgs rule: process_item_process_outlines.induct)
  case (1 d cs pgs)
  then show ?case by simp
next
  case (2 t d pgs)
  then show ?case by (auto dest: resolve_destination_bound)
next
  case (3 t d cs pgs)
  then show ?case by (auto split: sum.splits dest: resolve_destination_bound)
next
  case (4 pgs)
  then show ?case by simp
next
  case (5 item rest pgs)
  show ?case
  proof (cases "process_item item pgs")
    case (Inl ex)
    then show ?thesis by simp
  next
    case (Inr found)
    with 5 show ?thesis by auto
  qed
qed

lemma process_outlines_bound:
  "s \<in> set (process_outlines items pgs) \<Longrightarrow> snd s < length pgs"
  using process_bound(2) by blast

lemma extract_outline_bound:
  "pdf_at e path = Some doc \<Longrightarrow> s \<in> set (extract_outline e path)
     \<Longrightarrow> snd s < length (pages doc)"
  by (auto simp: extract_outline_def split: option.splits dest: process_outlines_bound)

lemma add_pages_in_bounds:
  "\<forall>k \<in> set ks. k < length pgs \<and> can_copy e k
     \<Longrightarrow> add_pages e pgs ks = Inr (map ((!) pgs) ks)"
  by (induction ks) auto

lemma add_pages_range:
  "b \<le> length pgs \<Longrightarrow> \<forall>k \<in> set [a..<b]. can_copy e k
     \<Longrightarrow> add_pages e pgs [a..<b] = Inr (map ((!) pgs) [a..<b])"
  by (rule add_pages_in_bounds) auto

lemma add_pages_no_index_error:
  "\<forall>k \<in> set ks. k < length pgs \<Longrightarrow> add_pages e pgs ks \<noteq> Inl IndexError"
  by (induction ks) (auto split: sum.splits)

lemma add_pages_Inr:
  "add_pages e pgs ks = Inr written \<Longrightarrow> written = map ((!) pgs) ks"
  by (induction ks arbitrary: written) (auto split: if_splits sum.splits)

lemma sorted_ordered: "sorted (map snd (ordered_sections e secs))"
  by (simp add: ordered_sections_def)

lemma set_ordered:
  "iterates_set (set_iter e) secs \<Longrightarrow> set (ordered_sections e secs) = set secs"
  by (simp add: ordered_sections_def iterates_set_def)

lemma length_with_end: "length (with_end secs pgs) = Suc (length secs)"
  by (simp add: with_end_def)

lemma sorted_with_end:
  assumes "\<forall>s \<in> set secs. snd s \<le> length pgs" and "sorted (map snd secs)"
  shows "sorted (map snd (with_end secs pgs))"
  using assms by (auto simp: with_end_def sorted_append)

lemma range_end_bound:
  assumes "\<forall>s \<in> set secs. snd s \<le> length pgs" and "i < length secs"
  shows "snd (section_range (with_end secs pgs) i) \<le> length pgs"
proof (cases "Suc i < length secs")
  case True
  then have "with_end secs pgs ! (i + 1) = secs ! (Suc i)"
    by (simp add: with_end_def nth_append)
  moreover have "secs ! Suc i \<in> set secs" using True by simp
  ultimately show ?thesis using assms(1) by (simp add: section_range_def)
next
  case False
  with assms(2) have "Suc i = length secs" by simp
  then have "with_end secs pgs ! (i + 1) = (py ''End'', length pgs)"
    by (simp add: with_end_def nth_append)
  then show ?thesis by (simp add: section_range_def)
qed

text \<open>The run on \<open>book\<close>, step by step.\<close>

lemma book_at: "pdf_at (example_env book) (py ''book.pdf'') = Some book"
  by (simp add: example_env_def)

lemma example_reader: "reader_at (example_env doc) (py ''book.pdf'') = Some (pages doc)"
  by (simp add: example_env_def)

lemma example_can_copy: "can_copy (example_env doc) page_num"
  by (simp add: example_env_def)

lemma book_outline:
  "extract_outline (example_env book) (py ''book.pdf'')
     = [(py ''A'', 0), (py ''B'', 2), (py ''C'', 3)]"
  by (simp add: extract_outline_def example_env_def book_def bookmark_def py_def)

lemma set_iter_example: "iterates_set (set_iter (example_env doc)) secs"
  by (simp add: iterates_set_def example_env_def)

lemma book_ordered:
  "ordered_sections (example_env book) [(py ''A'', 0), (py ''B'', 2), (py ''C'', 3)]
     = [(py ''A'', 0), (py ''B'', 2), (py ''C'', 3)]"
  by (simp add: ordered_sections_def example_env_def py_def)

lemma book_with_end:
  "with_end (ordered_sections (example_env book)
       (extract_outline (example_env book) (py ''book.pdf''))) (pages book)
     = [(py ''A'', 0), (py ''B'', 2), (py ''C'', 3), (py ''End'', 5)]"
  by (simp add: book_outline book_ordered with_end_def) (simp add: book_def)

text \<open>
  Claim C9. Every pair that the resolver returns has a page index below the number of
  pages of the document, and every lookup \<^verbatim>\<open>reader.pages[page_num]\<close> of the splitter's
  loop is within bounds: for each section of the sorted sequence, every page number of
  its range is below the number of the reader's pages, copying them raises no
  \<^verbatim>\<open>IndexError\<close>, and where the library can copy the pages the copy yields exactly the
  pages of the range. The page count is that of the one document: the reader presents
  every page that the resolver saw.
\<close>

theorem resolved_pages_in_bounds:
  assumes "pdf_at e path = Some doc"
    and "reader_at e path = Some pgs"
    and "length (pages doc) \<le> length pgs"
    and "iterates_set (set_iter e) (extract_outline e path)"
    and "secs = with_end (ordered_sections e (extract_outline e path)) pgs"
  shows "(\<forall>s \<in> set (extract_outline e path). snd s < length (pages doc))
    \<and> (\<forall>i < length secs - 1.
          \<forall>page_num \<in> set [fst (section_range secs i)..<snd (section_range secs i)].
            page_num < length pgs)
    \<and> (\<forall>i < length secs - 1.
          add_pages e pgs [fst (section_range secs i)..<snd (section_range secs i)]
            \<noteq> Inl IndexError)
    \<and> (\<forall>i < length secs - 1.
          (\<forall>page_num < length pgs. can_copy e page_num) \<longrightarrow>
          add_pages e pgs [fst (section_range secs i)..<snd (section_range secs i)]
            = Inr (map ((!) pgs)
                     [fst (section_range secs i)..<snd (section_range secs i)]))"
proof -
  let ?ord = "ordered_sections e (extract_outline e path)"
  have resolved: "\<forall>s \<in> set (extract_outline e path). snd s < length (pages doc)"
    using extract_outline_bound[OF assms(1)] by blast
  have "set ?ord = set (extract_outline e path)"
    using assms(4) by (rule set_ordered)
  with resolved assms(3) have le: "\<forall>s \<in> set ?ord. snd s \<le> length pgs"
    by auto
  have ends: "snd (section_range secs i) \<le> length pgs" if "i < length secs - 1" for i
  proof -
    from that have "i < length ?ord" by (simp add: assms(5) length_with_end)
    from range_end_bound[OF le this] show ?thesis by (simp add: assms(5))
  qed
  have inside: "\<forall>page_num \<in> set [fst (section_range secs i)..<snd (section_range secs i)].
      page_num < length pgs" if "i < length secs - 1" for i
    using ends[OF that] by auto
  have no_index_error:
    "add_pages e pgs [fst (section_range secs i)..<snd (section_range secs i)]
       \<noteq> Inl IndexError" if "i < length secs - 1" for i
    using inside[OF that] by (rule add_pages_no_index_error)
  have copied:
    "add_pages e pgs [fst (section_range secs i)..<snd (section_range secs i)]
       = Inr (map ((!) pgs) [fst (section_range secs i)..<snd (section_range secs i)])"
    if "i < length secs - 1" and "\<forall>page_num < length pgs. can_copy e page_num" for i
    using inside[OF that(1)] that(2) by (intro add_pages_in_bounds) auto
  from resolved inside no_index_error copied show ?thesis by blast
qed

text \<open>On \<open>book\<close>, the first section copies the pages 0 and 1.\<close>

theorem resolved_pages_in_bounds_witness:
  "pdf_at (example_env book) (py ''book.pdf'') = Some book
   \<and> reader_at (example_env book) (py ''book.pdf'') = Some (pages book)
   \<and> iterates_set (set_iter (example_env book))
        (extract_outline (example_env book) (py ''book.pdf''))
   \<and> extract_outline (example_env book) (py ''book.pdf'')
        = [(py ''A'', 0), (py ''B'', 2), (py ''C'', 3)]
   \<and> add_pages (example_env book) (pages book) [0..<2] = Inr [10, 11]"
proof -
  let ?secs = "[(py ''A'', 0::nat), (py ''B'', 2), (py ''C'', 3), (py ''End'', 5)]"
  have same_count: "length (pages book) \<le> length (pages book)" by simp
  have "\<forall>i < length ?secs - 1.
          (\<forall>page_num < length (pages book). can_copy (example_env book) page_num) \<longrightarrow>
          add_pages (example_env book) (pages book)
              [fst (section_range ?secs i)..<snd (section_range ?secs i)]
            = Inr (map ((!) (pages book))
                     [fst (section_range ?secs i)..<snd (section_range ?secs i)])"
    using resolved_pages_in_bounds[OF book_at example_reader same_count set_iter_example
        book_with_end[symmetric]]
    by blast
  then have "add_pages (example_env book) (pages book)
              [fst (section_range ?secs 0)..<snd (section_range ?secs 0)]
            = Inr (map ((!) (pages book))
                     [fst (section_range ?secs 0)..<snd (section_range ?secs 0)])"
    by (simp add: example_can_copy)
  then have "add_pages (example_env book) (pages book) [0..<2] = Inr [10, 11]"
    by (simp add: section_range_def book_def upt_rec)
  with book_at example_reader set_iter_example book_outline show ?thesis by blast
qed

subsection \<open>The sorted sequence of sections\<close>

text \<open>
  Claim C8. The sections resolved from a document, deduplicated and sorted, have
  non-decreasing page indexes; they still have after \<^verbatim>\<open>('End', len(reader.pages))\<close> is
  appended; and when the resolver found anything (so that splitting proceeds) the
  sequence with the end marker has at least two elements. The total page count is that
  of the one document: the reader presents every page that the resolver saw.
\<close>

theorem ordered_sections_sorted:
  assumes "pdf_at e path = Some doc"
    and "reader_at e path = Some pgs"
    and "length (pages doc) \<le> length pgs"
    and "iterates_set (set_iter e) (extract_outline e path)"
    and "ord = ordered_sections e (extract_outline e path)"
  shows "sorted (map snd ord)
    \<and> sorted (map snd (with_end ord pgs))
    \<and> (extract_outline e path \<noteq> [] \<longrightarrow> 2 \<le> length (with_end ord pgs))"
proof -
  have srt: "sorted (map snd ord)"
    unfolding assms(5) by (rule sorted_ordered)
  have same: "set ord = set (extract_outline e path)"
    unfolding assms(5) using assms(4) by (rule set_ordered)
  then have "\<forall>s \<in> set ord. snd s < length (pages doc)"
    using extract_outline_bound[OF assms(1)] by auto
  with assms(3) have "\<forall>s \<in> set ord. snd s \<le> length pgs"
    by auto
  then have "sorted (map snd (with_end ord pgs))"
    using srt by (rule sorted_with_end)
  moreover have "2 \<le> length (with_end ord pgs)" if "extract_outline e path \<noteq> []"
  proof -
    from that same have "ord \<noteq> []" by auto
    then show ?thesis by (cases ord) (simp_all add: length_with_end)
  qed
  ultimately show ?thesis using srt by blast
qed

text \<open>On \<open>book\<close> the sequence is A at 0, B at 2, C at 3, End at 5.\<close>

theorem ordered_sections_sorted_witness:
  "pdf_at (example_env book) (py ''book.pdf'') = Some book
   \<and> reader_at (example_env book) (py ''book.pdf'') = Some (pages book)
   \<and> iterates_set (set_iter (example_env book))
        (extract_outline (example_env book) (py ''book.pdf''))
   \<and> extract_outline (example_env book) (py ''book.pdf'') \<noteq> []
   \<and> sorted (map snd [(py ''A'', 0::nat), (py ''B'', 2), (py ''C'', 3), (py ''End'', 5)])
   \<and> 2 \<le> length (with_end (ordered_sections (example_env book)
             (extract_outline (example_env book) (py ''book.pdf''))) (pages book))"
proof -
  have nonempty: "extract_outline (example_env book) (py ''book.pdf'') \<noteq> []"
    by (simp add: book_outline)
  have same_count: "length (pages book) \<le> length (pages book)" by simp
  from ordered_sections_sorted[OF book_at example_reader same_count set_iter_example refl]
    nonempty
  have "sorted (map snd (with_end (ordered_sections (example_env book)
             (extract_outline (example_env book) (py ''book.pdf''))) (pages book)))
     \<and> 2 \<le> length (with_end (ordered_sections (example_env book)
             (extract_outline (example_env book) (py ''book.pdf''))) (pages book))"
    by blast
  then show ?thesis
    using book_at example_reader set_iter_example nonempty by (simp add: book_with_end)
qed

subsection \<open>The page ranges\<close>

lemma ranges_upt:
  "map (\<lambda>i. f ((x # y # r) ! i) ((x # y # r) ! (i + 1))) [0..<length (x # y # r) - 1]
     = f x y # map (\<lambda>i. f ((y # r) ! i) ((y # r) ! (i + 1))) [0..<length (y # r) - 1]"
proof -
  have "[0..<length (x # y # r) - 1] = 0 # map Suc [0..<length (y # r) - 1]"
    by (simp add: upt_conv_Cons map_Suc_upt del: upt_Suc)
  then show ?thesis by (simp add: comp_def del: upt_Suc)
qed

lemma copied_Cons:
  "copied_page_numbers (x # y # r) = [snd x..<snd y] @ copied_page_numbers (y # r)"
  unfolding copied_page_numbers_def section_range_def fst_conv snd_conv
  using ranges_upt[of "\<lambda>a b. [snd a..<snd b]" x y r] by simp

lemma upt_join: "a \<le> b \<Longrightarrow> b \<le> c \<Longrightarrow> [a..<b] @ [b..<c] = [a..<(c::nat)]"
  using upt_add_eq_append[of a b "c - b"] by simp

lemma copied_sorted:
  "secs \<noteq> [] \<Longrightarrow> sorted (map snd secs)
     \<Longrightarrow> copied_page_numbers secs = [snd (hd secs)..<snd (last secs)]"
proof (induction secs rule: induct_list012)
  case 1
  then show ?case by simp
next
  case (2 x)
  then show ?case by (simp add: copied_page_numbers_def)
next
  case (3 x y zs)
  have le: "snd x \<le> snd y" using "3.prems" by simp
  have "snd y \<le> snd (last (y # zs))"
    using "3.prems"(2) by (cases zs rule: rev_cases) (auto simp: sorted_append)
  moreover have "copied_page_numbers (y # zs) = [snd y..<snd (last (y # zs))]"
    using "3.IH"(2) "3.prems" by simp
  moreover have "last (x # y # zs) = last (y # zs)" by simp
  ultimately show ?case
    using le by (simp only: copied_Cons upt_join list.sel)
qed


lemma ranges_ordered:
  assumes "sorted (map snd secs)" and "i < j" and "j + 1 < length secs"
  shows "snd (section_range secs i) \<le> fst (section_range secs j)"
proof -
  have "map snd secs ! (i + 1) \<le> map snd secs ! j"
    using assms by (intro sorted_nth_mono) simp_all
  then show ?thesis using assms by (simp add: section_range_def)
qed

lemma late_book_at: "pdf_at (example_env late_book) (py ''book.pdf'') = Some late_book"
  by (simp add: example_env_def)

lemma late_book_outline:
  "extract_outline (example_env late_book) (py ''book.pdf'') = [(py ''A'', 2), (py ''B'', 3)]"
  by (simp add: extract_outline_def example_env_def late_book_def bookmark_def py_def)

lemma late_book_ordered:
  "ordered_sections (example_env late_book) [(py ''A'', 2), (py ''B'', 3)]
     = [(py ''A'', 2), (py ''B'', 3)]"
  by (simp add: ordered_sections_def example_env_def py_def)

lemma late_book_with_end:
  "with_end (ordered_sections (example_env late_book)
       (extract_outline (example_env late_book) (py ''book.pdf''))) (pages late_book)
     = [(py ''A'', 2), (py ''B'', 3), (py ''End'', 5)]"
  by (simp add: late_book_outline late_book_ordered with_end_def) (simp add: late_book_def)

lemma late_book_copied:
  "copied_page_numbers [(py ''A'', 2), (py ''B'', 3), (py ''End'', 5)] = [2, 3, 4]"
  by (simp add: copied_Cons) (simp add: copied_page_numbers_def upt_rec)

text \<open>
  Claim C1 says that with strictly increasing page indexes the ranges of the splitter
  partition all of \<open>[0, totalPageCount)\<close>. They do not when the first bookmark is not on
  the first page: in \<open>late_book\<close> the sections start at the pages 2 and 3, the page
  indexes increase strictly, and the pages 0 and 1 are in no range.
\<close>

theorem page_ranges_cover_from_zero_counterexample:
  "reader_at (example_env late_book) (py ''book.pdf'') = Some (pages late_book)
   \<and> sorted_wrt (<) (map snd (ordered_sections (example_env late_book)
       (extract_outline (example_env late_book) (py ''book.pdf''))))
   \<and> set (copied_page_numbers (with_end (ordered_sections (example_env late_book)
       (extract_outline (example_env late_book) (py ''book.pdf''))) (pages late_book)))
     \<noteq> {0..<length (pages late_book)}"
proof -
  have "set (copied_page_numbers [(py ''A'', 2), (py ''B'', 3), (py ''End'', 5)]) \<noteq> {0..<5}"
    unfolding late_book_copied by (simp add: set_eq_iff) (rule exI[of _ 0], simp)
  moreover have "length (pages late_book) = 5" by (simp add: late_book_def)
  ultimately show ?thesis
    by (simp add: late_book_with_end example_reader)
       (simp add: late_book_outline late_book_ordered)
qed

text \<open>
  Claim C1, amended. When the page indexes of the sorted sections increase strictly, the
  ranges \<open>[sections[i].pageIndex, sections[i+1].pageIndex)\<close>, taken after the end marker
  is appended, partition the pages from the first section's page on, that is
  \<open>[sections[0].pageIndex, totalPageCount)\<close>: the loop looks up exactly these page
  numbers, each once and in order, every range is non-empty and no two ranges overlap.
  The pages before the first section belong to no range. The total page count is that
  of the one document: the reader presents every page that the resolver saw.
\<close>

theorem page_ranges_partition:
  assumes "pdf_at e path = Some doc"
    and "reader_at e path = Some pgs"
    and "length (pages doc) \<le> length pgs"
    and "iterates_set (set_iter e) (extract_outline e path)"
    and "ord = ordered_sections e (extract_outline e path)"
    and "ord \<noteq> []"
    and "sorted_wrt (<) (map snd ord)"
    and "secs = with_end ord pgs"
  shows "copied_page_numbers secs = [snd (hd ord)..<length pgs]
    \<and> set (copied_page_numbers secs) = {snd (hd ord)..<length pgs}
    \<and> distinct (copied_page_numbers secs)
    \<and> (\<forall>i < length ord. fst (section_range secs i) < snd (section_range secs i))
    \<and> (\<forall>i < length ord. \<forall>j < length ord. i < j \<longrightarrow>
          {fst (section_range secs i)..<snd (section_range secs i)}
            \<inter> {fst (section_range secs j)..<snd (section_range secs j)} = {})"
proof -
  have same: "set ord = set (extract_outline e path)"
    unfolding assms(5) using assms(4) by (rule set_ordered)
  then have "\<forall>s \<in> set ord. snd s < length (pages doc)"
    using extract_outline_bound[OF assms(1)] by auto
  with assms(3) have below: "\<forall>s \<in> set ord. snd s < length pgs"
    by auto
  then have le: "\<forall>s \<in> set ord. snd s \<le> length pgs"
    by (auto simp: less_imp_le)
  have "sorted (map snd ord)"
    using assms(7) by (simp add: strict_sorted_iff)
  with le have srt: "sorted (map snd secs)"
    unfolding assms(8) by (rule sorted_with_end)
  have len: "length secs = Suc (length ord)"
    by (simp add: assms(8) length_with_end)
  have "secs \<noteq> []" by (simp add: assms(8) with_end_def)
  from copied_sorted[OF this srt]
  have copied: "copied_page_numbers secs = [snd (hd ord)..<length pgs]"
    using assms(6) by (simp add: assms(8) with_end_def)
  have nonempty: "fst (section_range secs i) < snd (section_range secs i)"
    if "i < length ord" for i
  proof (cases "Suc i < length ord")
    case True
    then have "map snd ord ! i < map snd ord ! Suc i"
      using sorted_wrt_nth_less[OF assms(7), of i "Suc i"] by simp
    with True show ?thesis
      by (simp add: section_range_def assms(8) with_end_def nth_append)
  next
    case False
    with that have "Suc i = length ord" by simp
    moreover have "snd (ord ! i) < length pgs"
      using below that by simp
    ultimately show ?thesis
      using that by (simp add: section_range_def assms(8) with_end_def nth_append)
  qed
  have disjoint: "{fst (section_range secs i)..<snd (section_range secs i)}
            \<inter> {fst (section_range secs j)..<snd (section_range secs j)} = {}"
    if "i < j" and "j < length ord" for i j
    using ranges_ordered[OF srt that(1), of ] that(2) len by auto
  from copied nonempty disjoint show ?thesis by simp
qed

text \<open>On \<open>late_book\<close> the pages 2, 3 and 4 are looked up.\<close>

theorem page_ranges_partition_witness:
  "pdf_at (example_env late_book) (py ''book.pdf'') = Some late_book
   \<and> reader_at (example_env late_book) (py ''book.pdf'') = Some (pages late_book)
   \<and> iterates_set (set_iter (example_env late_book))
        (extract_outline (example_env late_book) (py ''book.pdf''))
   \<and> ordered_sections (example_env late_book)
        (extract_outline (example_env late_book) (py ''book.pdf'')) \<noteq> []
   \<and> sorted_wrt (<) (map snd (ordered_sections (example_env late_book)
        (extract_outline (example_env late_book) (py ''book.pdf''))))
   \<and> copied_page_numbers [(py ''A'', 2), (py ''B'', 3), (py ''End'', 5)] = [2..<5]"
proof -
  have ord: "ordered_sections (example_env late_book)
        (extract_outline (example_env late_book) (py ''book.pdf'')) = [(py ''A'', 2), (py ''B'', 3)]"
    by (simp add: late_book_outline late_book_ordered)
  have nonempty: "ordered_sections (example_env late_book)
        (extract_outline (example_env late_book) (py ''book.pdf'')) \<noteq> []"
    by (simp add: ord)
  have increasing: "sorted_wrt (<) (map snd (ordered_sections (example_env late_book)
        (extract_outline (example_env late_book) (py ''book.pdf''))))"
    by (simp add: ord)
  have same_count: "length (pages late_book) \<le> length (pages late_book)" by simp
  from page_ranges_partition[OF late_book_at example_reader same_count set_iter_example
      refl nonempty increasing refl]
  have "copied_page_numbers (with_end (ordered_sections (example_env late_book)
        (extract_outline (example_env late_book) (py ''book.pdf''))) (pages late_book))
      = [snd (hd (ordered_sections (example_env late_book)
        (extract_outline (example_env late_book) (py ''book.pdf''))))..<length (pages late_book)]"
    by blast
  then have "copied_page_numbers [(py ''A'', 2), (py ''B'', 3), (py ''End'', 5)] = [2..<5]"
    unfolding late_book_with_end by (simp add: ord) (simp add: late_book_def)
  with late_book_at example_reader set_iter_example nonempty increasing
  show ?thesis by blast
qed

subsection \<open>Output files\<close>

declare str_nat.simps [simp del]

lemma str_nat_digits: "set (str_nat n) \<subseteq> {48..57}"
proof (induction n rule: str_nat.induct)
  case (1 n)
  show ?case
  proof (cases "n < 10")
    case True
    then show ?thesis by (subst str_nat.simps) simp
  next
    case False
    have "n mod 10 < 10" by simp
    then have "48 + n mod 10 \<in> {48..57}" by (simp del: mod_less_divisor)
    with False 1 show ?thesis by (subst str_nat.simps) simp
  qed
qed

lemma str_nat_nonempty: "str_nat n \<noteq> []"
  by (subst str_nat.simps) simp

lemma nat_of_digits_snoc: "nat_of_digits (s @ [c]) = 10 * nat_of_digits s + (c - 48)"
  by (simp add: nat_of_digits_def)

lemma nat_of_digits_str_nat: "nat_of_digits (str_nat n) = n"
proof (induction n rule: str_nat.induct)
  case (1 n)
  show ?case
  proof (cases "n < 10")
    case True
    then show ?thesis by (subst str_nat.simps) (simp add: nat_of_digits_def)
  next
    case False
    with 1 have "nat_of_digits (str_nat (n div 10)) = n div 10" by simp
    with False show ?thesis
      by (subst str_nat.simps) (simp add: nat_of_digits_snoc)
  qed
qed

lemma nat_of_digits_zeros: "nat_of_digits (replicate k 48 @ s) = nat_of_digits s"
proof -
  have "foldl (\<lambda>a c. 10 * a + (c - 48)) 0 (replicate k 48) = (0::nat)"
    by (induction k) simp_all
  then show ?thesis by (simp add: nat_of_digits_def)
qed

lemma zfill_str_nat:
  "zfill 2 (str_nat n) = replicate (2 - length (str_nat n)) 48 @ str_nat n"
proof (cases "str_nat n")
  case Nil
  then show ?thesis using str_nat_nonempty by simp
next
  case (Cons c cs)
  then have "c \<in> {48..57}" using str_nat_digits[of n] by simp
  then have "c \<noteq> 43 \<and> c \<noteq> 45" by auto
  with Cons show ?thesis by (auto simp: zfill_def)
qed

lemma ordinal_digits: "set (zfill 2 (str_nat n)) \<subseteq> {48..57}"
  using str_nat_digits[of n] by (auto simp: zfill_str_nat)

lemma ordinal_value: "nat_of_digits (zfill 2 (str_nat n)) = n"
  by (simp add: zfill_str_nat nat_of_digits_zeros nat_of_digits_str_nat)

lemma py_underscore: "py ''_'' = [95]"
  by (simp add: py_def)

lemma ordinal_of_output_filename: "ordinal_of (output_filename e i t) = i + 1"
proof -
  let ?ds = "zfill 2 (str_nat (i + 1))"
  have "\<forall>c \<in> set ?ds. c \<noteq> 95" using ordinal_digits[of "i + 1"] by auto
  then have "takeWhile (\<lambda>c. c \<noteq> 95) (?ds @ 95 # (sanitize_filename e t @ py ''.pdf'')) = ?ds"
    by (simp add: takeWhile_tail)
  then show ?thesis
    by (simp add: ordinal_of_def output_filename_def py_underscore ordinal_value)
qed

lemma written_files_append: "written_files (xs @ ys) = written_files xs @ written_files ys"
  by (induction xs rule: written_files.induct) simp_all

lemma written_files_concat:
  "written_files (concat xss) = concat (map written_files xss)"
  by (induction xss) (simp_all add: written_files_append)

lemma round_succeedsI:
  assumes "snd (section_range secs i) \<le> length pgs"
    and "\<forall>k \<in> set [fst (section_range secs i)..<snd (section_range secs i)]. can_copy e k"
    and "can_write e (path_join e (output_dir self) (output_filename e i (fst (secs ! i))))"
  shows "round_succeeds e self pgs secs i"
  using add_pages_range[OF assms(1,2)] assms(3) by (simp add: round_succeeds_def)

lemma split_section_written:
  assumes "round_succeeds e self pgs secs i"
  shows "split_section e self pgs secs i =
           [WriteFile (output_dir self) (output_filename e i (fst (secs ! i)))
              (map ((!) pgs) [fst (section_range secs i)..<snd (section_range secs i)]),
            Print (created_message
              (path_join e (output_dir self) (output_filename e i (fst (secs ! i))))
              (fst (section_range secs i)) (snd (section_range secs i)))]"
proof -
  let ?nums = "[fst (section_range secs i)..<snd (section_range secs i)]"
  from assms obtain written where "add_pages e pgs ?nums = Inr written"
    by (cases "add_pages e pgs ?nums") (simp_all add: round_succeeds_def)
  moreover from this have "written = map ((!) pgs) ?nums"
    by (rule add_pages_Inr)
  ultimately have "add_pages e pgs ?nums = Inr (map ((!) pgs) ?nums)"
    by simp
  moreover have
    "can_write e (path_join e (output_dir self) (output_filename e i (fst (secs ! i))))"
    using assms by (simp add: round_succeeds_def)
  ultimately show ?thesis
    by (simp add: split_section_def Let_def case_prod_beta)
qed

lemma split_pdf_events:
  assumes "path_exists e (input_pdf self)"
    and "reader_at e (input_pdf self) = Some pgs"
    and "extract_outline e (input_pdf self) \<noteq> []"
    and "secs = with_end (ordered_sections e (extract_outline e (input_pdf self))) pgs"
  shows "split_pdf e self =
           (MakeDirs (output_dir self)
              # concat (map (split_section e self pgs secs) [0..<length secs - 1]),
            None)"
  using assms by (simp add: split_pdf_def Let_def)

lemma concat_singletons: "concat (map (\<lambda>i. [g i]) xs) = map g xs"
  by (induction xs) simp_all

lemma with_end_nth: "i < length ord \<Longrightarrow> with_end ord pgs ! i = ord ! i"
  by (simp add: with_end_def nth_append)

lemma written_of_run:
  assumes "path_exists e (input_pdf self)"
    and "reader_at e (input_pdf self) = Some pgs"
    and "extract_outline e (input_pdf self) \<noteq> []"
    and "ord = ordered_sections e (extract_outline e (input_pdf self))"
    and "secs = with_end ord pgs"
    and "\<forall>i < length ord. round_succeeds e self pgs secs i"
  shows "written_files (fst (split_pdf e self)) =
           map (\<lambda>i. (output_filename e i (fst (ord ! i)),
                      map ((!) pgs)
                        [fst (section_range secs i)..<snd (section_range secs i)]))
               [0..<length ord]"
proof -
  have len: "length secs - 1 = length ord"
    by (simp add: assms(5) length_with_end)
  have one: "written_files (split_section e self pgs secs i) =
           [(output_filename e i (fst (ord ! i)),
             map ((!) pgs) [fst (section_range secs i)..<snd (section_range secs i)])]"
    if "i < length ord" for i
  proof -
    have "round_succeeds e self pgs secs i"
      using assms(6) that by simp
    moreover have "fst (secs ! i) = fst (ord ! i)"
      using that by (simp add: assms(5) with_end_nth)
    ultimately show ?thesis by (simp add: split_section_written)
  qed
  have "written_files (fst (split_pdf e self)) =
          concat (map (\<lambda>i. written_files (split_section e self pgs secs i))
                    [0..<length ord])"
    using assms(4,5) len
    by (simp add: split_pdf_events[OF assms(1,2,3) refl] written_files_concat comp_def)
  also have "\<dots> = concat (map (\<lambda>i. [(output_filename e i (fst (ord ! i)),
             map ((!) pgs) [fst (section_range secs i)..<snd (section_range secs i)])])
                    [0..<length ord])"
    using one by (intro arg_cong[where f = concat] map_cong) simp_all
  finally show ?thesis by (simp only: concat_singletons)
qed

text \<open>
  Where the reader presents every page that the resolver saw, and every page copy and
  every write succeeds, every round succeeds.
\<close>

lemma rounds_succeed:
  assumes "pdf_at e path = Some doc"
    and "length (pages doc) \<le> length pgs"
    and "iterates_set (set_iter e) (extract_outline e path)"
    and "ord = ordered_sections e (extract_outline e path)"
    and "secs = with_end ord pgs"
    and "\<forall>k. can_copy e k"
    and "\<forall>p. can_write e p"
  shows "\<forall>i < length ord. round_succeeds e self pgs secs i"
proof (intro allI impI)
  fix i
  assume i: "i < length ord"
  have "set ord = set (extract_outline e path)"
    unfolding assms(4) using assms(3) by (rule set_ordered)
  then have "\<forall>s \<in> set ord. snd s < length (pages doc)"
    using extract_outline_bound[OF assms(1)] by auto
  with assms(2) have le: "\<forall>s \<in> set ord. snd s \<le> length pgs"
    by auto
  have "snd (section_range secs i) \<le> length pgs"
    unfolding assms(5) using le i by (rule range_end_bound)
  then show "round_succeeds e self pgs secs i"
    using assms(6,7) by (intro round_succeedsI) simp_all
qed

lemma example_self_fields:
  "input_pdf example_self = py ''book.pdf''" "output_dir example_self = py ''out''"
  by (simp_all add: example_self_def)

lemma example_exists: "path_exists (example_env doc) (py ''book.pdf'')"
  by (simp add: example_env_def)

lemma example_can_write: "can_write (example_env doc) p"
  by (simp add: example_env_def)

lemma example_at: "pdf_at (example_env doc) (py ''book.pdf'') = Some doc"
  by (simp add: example_env_def)

lemma example_rounds_succeed:
  assumes "ord = ordered_sections (example_env doc)
                   (extract_outline (example_env doc) (py ''book.pdf''))"
    and "secs = with_end ord (pages doc)"
  shows "\<forall>i < length ord. round_succeeds (example_env doc) self (pages doc) secs i"
proof -
  have "length (pages doc) \<le> length (pages doc)" by simp
  from rounds_succeed[OF example_at this set_iter_example assms] show ?thesis
    by (simp add: example_can_copy example_can_write)
qed

lemma unreadable_outline:
  "extract_outline (unreadable_env doc) path = extract_outline (example_env doc) path"
  by (simp add: extract_outline_def unreadable_env_def)

text \<open>
  Claim C4 says that a non-empty resolved outline and the absence of per-section
  failures give one file per section. PyPDF2's \<^verbatim>\<open>PdfReader\<close> is constructed at line 124,
  after the resolver has run and outside the \<^verbatim>\<open>try\<close> of the loop: where it cannot read
  the file that pikepdf has opened, \<^verbatim>\<open>split_pdf\<close> is left by its exception before the
  first round, no section has failed and no file is written, although the resolver
  found three sections.
\<close>

theorem reader_fails_no_files_counterexample:
  "extract_outline (unreadable_env book) (input_pdf example_self)
     = [(py ''A'', 0), (py ''B'', 2), (py ''C'', 3)]
   \<and> split_pdf (unreadable_env book) example_self
     = ([MakeDirs (py ''out'')], Some PdfReadError)
   \<and> written_files (fst (split_pdf (unreadable_env book) example_self)) = []"
proof -
  have outline: "extract_outline (unreadable_env book) (py ''book.pdf'')
     = [(py ''A'', 0), (py ''B'', 2), (py ''C'', 3)]"
    by (simp add: unreadable_outline book_outline)
  have found: "path_exists (unreadable_env book) (py ''book.pdf'')"
    by (simp add: unreadable_env_def example_exists)
  have no_reader: "reader_at (unreadable_env book) (py ''book.pdf'') = None"
    by (simp add: unreadable_env_def)
  have "split_pdf (unreadable_env book) example_self
     = ([MakeDirs (py ''out'')], Some PdfReadError)"
    by (simp add: split_pdf_def Let_def example_self_fields found no_reader outline)
  with outline show ?thesis by (simp add: example_self_fields)
qed

text \<open>
  Claim C4, amended. When the resolver finds at least one section, PyPDF2's reader opens
  the file as well, and no round of the loop fails (neither its page copy nor its write
  raises), \<^verbatim>\<open>split_pdf\<close> writes as many files as there are distinct (title, page index)
  pairs, the end marker not counted; their names differ from one another, so no file
  overwrites another.
\<close>

theorem one_file_per_section:
  assumes "path_exists e (input_pdf self)"
    and "reader_at e (input_pdf self) = Some pgs"
    and "iterates_set (set_iter e) (extract_outline e (input_pdf self))"
    and "extract_outline e (input_pdf self) \<noteq> []"
    and "ord = ordered_sections e (extract_outline e (input_pdf self))"
    and "secs = with_end ord pgs"
    and "\<forall>i < length ord. round_succeeds e self pgs secs i"
  shows "length (written_files (fst (split_pdf e self)))
           = card (set (extract_outline e (input_pdf self)))
    \<and> distinct (map fst (written_files (fst (split_pdf e self))))"
proof -
  note files = written_of_run[OF assms(1,2,4,5,6,7)]
  have "length ord = length (set_iter e (extract_outline e (input_pdf self)))"
    by (simp add: assms(5) ordered_sections_def)
  also have "\<dots> = card (set (extract_outline e (input_pdf self)))"
    using assms(3) distinct_card[of "set_iter e (extract_outline e (input_pdf self))"]
    by (simp add: iterates_set_def)
  finally have count: "length (written_files (fst (split_pdf e self)))
           = card (set (extract_outline e (input_pdf self)))"
    by (simp add: files)
  have "map ordinal_of (map fst (written_files (fst (split_pdf e self))))
          = map (\<lambda>i. i + 1) [0..<length ord]"
    by (simp add: files comp_def ordinal_of_output_filename)
  moreover have "distinct (map (\<lambda>i. i + 1) [0..<length ord])"
    by (simp add: distinct_map)
  ultimately have "distinct (map ordinal_of (map fst (written_files (fst (split_pdf e self)))))"
    by simp
  then have "distinct (map fst (written_files (fst (split_pdf e self))))"
    using distinct_map[of ordinal_of "map fst (written_files (fst (split_pdf e self)))"]
    by blast
  with count show ?thesis by simp
qed

text \<open>On \<open>book\<close> three files are written.\<close>

theorem one_file_per_section_witness:
  "path_exists (example_env book) (input_pdf example_self)
   \<and> reader_at (example_env book) (input_pdf example_self) = Some (pages book)
   \<and> iterates_set (set_iter (example_env book))
        (extract_outline (example_env book) (input_pdf example_self))
   \<and> extract_outline (example_env book) (input_pdf example_self) \<noteq> []
   \<and> round_succeeds (example_env book) example_self (pages book)
        [(py ''A'', 0), (py ''B'', 2), (py ''C'', 3), (py ''End'', 5)] 0
   \<and> length (written_files (fst (split_pdf (example_env book) example_self))) = 3"
proof -
  let ?ord = "ordered_sections (example_env book)
                (extract_outline (example_env book) (input_pdf example_self))"
  have ex: "path_exists (example_env book) (input_pdf example_self)"
    by (simp add: example_self_fields example_exists)
  have reader: "reader_at (example_env book) (input_pdf example_self) = Some (pages book)"
    by (simp add: example_self_fields example_reader)
  have nonempty: "extract_outline (example_env book) (input_pdf example_self) \<noteq> []"
    by (simp add: example_self_fields book_outline)
  have rounds: "\<forall>i < length ?ord.
      round_succeeds (example_env book) example_self (pages book)
        (with_end ?ord (pages book)) i"
    by (rule example_rounds_succeed) (simp_all add: example_self_fields)
  have secs: "with_end ?ord (pages book)
      = [(py ''A'', 0), (py ''B'', 2), (py ''C'', 3), (py ''End'', 5)]"
    by (simp add: example_self_fields book_with_end)
  have "0 < length ?ord"
    by (simp add: example_self_fields book_outline book_ordered)
  with rounds have "round_succeeds (example_env book) example_self (pages book)
        (with_end ?ord (pages book)) 0"
    by blast
  then have first: "round_succeeds (example_env book) example_self (pages book)
        [(py ''A'', 0), (py ''B'', 2), (py ''C'', 3), (py ''End'', 5)] 0"
    unfolding secs .
  have "card (set (extract_outline (example_env book) (input_pdf example_self))) = 3"
    unfolding example_self_fields book_outline by (simp add: py_def)
  with one_file_per_section[OF ex reader set_iter_example nonempty refl refl rounds]
  have "length (written_files (fst (split_pdf (example_env book) example_self))) = 3"
    by simp
  with ex reader set_iter_example nonempty first show ?thesis by blast
qed

lemma twins_outline:
  "extract_outline (example_env twins) (py ''book.pdf'') = [(py ''A'', 2), (py ''B'', 2)]"
  by (simp add: extract_outline_def example_env_def twins_def bookmark_def py_def)

lemma twins_ordered:
  "ordered_sections (example_env twins) [(py ''A'', 2), (py ''B'', 2)]
     = [(py ''A'', 2), (py ''B'', 2)]"
  by (simp add: ordered_sections_def example_env_def py_def)

lemma twins_with_end:
  "with_end (ordered_sections (example_env twins)
       (extract_outline (example_env twins) (py ''book.pdf''))) (pages twins)
     = [(py ''A'', 2), (py ''B'', 2), (py ''End'', 4)]"
  by (simp add: twins_outline twins_ordered with_end_def) (simp add: twins_def)

lemma name_01: "output_filename (example_env doc) 0 (py ''A'') = py ''01_A.pdf''"
  by (simp add: output_filename_def zfill_def str_nat.simps sanitize_filename_def
      rstrip_chars_def strip_def rstrip_def invalid_chars_def example_env_def
      unicode_isspace_def py_def)

lemma name_02: "output_filename (example_env doc) (Suc 0) (py ''B'') = py ''02_B.pdf''"
  by (simp add: output_filename_def zfill_def str_nat.simps sanitize_filename_def
      rstrip_chars_def strip_def rstrip_def invalid_chars_def example_env_def
      unicode_isspace_def py_def)

text \<open>
  Claim C10. When two neighbours of the sequence (after the end marker is appended) have
  the same page index, the round for the first of them copies no page and, unless the
  write itself fails, still writes its file: an output document with no pages. The
  sequence exists once the reader has opened the file.
\<close>

theorem empty_range_still_written:
  assumes "path_exists e (input_pdf self)"
    and "reader_at e (input_pdf self) = Some pgs"
    and "extract_outline e (input_pdf self) \<noteq> []"
    and "secs = with_end (ordered_sections e (extract_outline e (input_pdf self))) pgs"
    and "i + 1 < length secs"
    and "snd (secs ! i) = snd (secs ! (i + 1))"
    and "can_write e (path_join e (output_dir self) (output_filename e i (fst (secs ! i))))"
  shows "add_pages e pgs [fst (section_range secs i)..<snd (section_range secs i)] = Inr []
    \<and> WriteFile (output_dir self) (output_filename e i (fst (secs ! i))) []
         \<in> set (fst (split_pdf e self))"
proof -
  have empty: "[fst (section_range secs i)..<snd (section_range secs i)] = []"
    using assms(6) by (simp add: section_range_def)
  have "split_section e self pgs secs i =
          [WriteFile (output_dir self) (output_filename e i (fst (secs ! i))) [],
           Print (created_message
              (path_join e (output_dir self) (output_filename e i (fst (secs ! i))))
              (fst (section_range secs i)) (snd (section_range secs i)))]"
    using assms(6,7) by (simp add: split_section_def section_range_def Let_def)
  then have "WriteFile (output_dir self) (output_filename e i (fst (secs ! i))) []
         \<in> set (split_section e self pgs secs i)"
    by simp
  moreover have "i \<in> set [0..<length secs - 1]"
    using assms(5) by simp
  ultimately have "WriteFile (output_dir self) (output_filename e i (fst (secs ! i))) []
         \<in> set (concat (map (split_section e self pgs secs) [0..<length secs - 1]))"
    by (simp only: set_concat set_map) blast
  then have "WriteFile (output_dir self) (output_filename e i (fst (secs ! i))) []
         \<in> set (fst (split_pdf e self))"
    by (simp add: split_pdf_events[OF assms(1,2,3,4)])
  moreover have
    "add_pages e pgs [fst (section_range secs i)..<snd (section_range secs i)] = Inr []"
    by (simp only: empty add_pages.simps)
  ultimately show ?thesis by simp
qed

text \<open>On \<open>twins\<close> the file of the bookmark A has no pages.\<close>

theorem empty_range_still_written_witness:
  "path_exists (example_env twins) (input_pdf example_self)
   \<and> reader_at (example_env twins) (input_pdf example_self) = Some (pages twins)
   \<and> extract_outline (example_env twins) (input_pdf example_self) \<noteq> []
   \<and> with_end (ordered_sections (example_env twins)
        (extract_outline (example_env twins) (input_pdf example_self))) (pages twins)
       = [(py ''A'', 2), (py ''B'', 2), (py ''End'', 4)]
   \<and> WriteFile (py ''out'') (py ''01_A.pdf'') []
        \<in> set (fst (split_pdf (example_env twins) example_self))"
proof -
  let ?secs = "[(py ''A'', 2::nat), (py ''B'', 2), (py ''End'', 4)]"
  have ex: "path_exists (example_env twins) (input_pdf example_self)"
    by (simp add: example_self_fields example_exists)
  have reader: "reader_at (example_env twins) (input_pdf example_self) = Some (pages twins)"
    by (simp add: example_self_fields example_reader)
  have nonempty: "extract_outline (example_env twins) (input_pdf example_self) \<noteq> []"
    by (simp add: example_self_fields twins_outline)
  have secs: "?secs = with_end (ordered_sections (example_env twins)
        (extract_outline (example_env twins) (input_pdf example_self))) (pages twins)"
    by (simp add: example_self_fields twins_with_end)
  have adjacent: "0 + 1 < length ?secs" by simp
  have same_page: "snd (?secs ! 0) = snd (?secs ! (0 + 1))" by simp
  have writes: "can_write (example_env twins) (path_join (example_env twins)
        (output_dir example_self) (output_filename (example_env twins) 0 (fst (?secs ! 0))))"
    by (simp add: example_can_write)
  from empty_range_still_written[OF ex reader nonempty secs adjacent same_page writes]
  have "WriteFile (py ''out'') (py ''01_A.pdf'') []
        \<in> set (fst (split_pdf (example_env twins) example_self))"
    by (simp add: example_self_fields name_01)
  with ex reader nonempty secs show ?thesis by simp
qed

subsection \<open>Bookmarks on the same page\<close>

lemma distinct_ordered:
  "iterates_set (set_iter e) secs \<Longrightarrow> distinct (ordered_sections e secs)"
  by (simp add: ordered_sections_def iterates_set_def)

lemma distinct_singleton: "distinct xs \<Longrightarrow> set xs = {a} \<Longrightarrow> xs = [a]"
proof (cases xs)
  case Nil
  assume "set xs = {a}"
  with Nil show ?thesis by simp
next
  case (Cons x rest)
  assume d: "distinct xs" and s: "set xs = {a}"
  from s Cons have "x = a" by auto
  moreover have "rest = []"
  proof (cases rest)
    case Nil
    then show ?thesis .
  next
    case (Cons y zs)
    with s \<open>xs = x # rest\<close> have "y = a" by auto
    with d \<open>xs = x # rest\<close> Cons \<open>x = a\<close> show ?thesis by simp
  qed
  ultimately show ?thesis using Cons by simp
qed

lemma twins_files:
  "written_files (fst (split_pdf (example_env twins) example_self))
     = [(py ''01_A.pdf'', []), (py ''02_B.pdf'', [12, 13])]"
proof -
  let ?ord = "[(py ''A'', 2::nat), (py ''B'', 2)]"
  let ?secs = "[(py ''A'', 2::nat), (py ''B'', 2), (py ''End'', 4)]"
  have ex: "path_exists (example_env twins) (input_pdf example_self)"
    by (simp add: example_self_fields example_exists)
  have reader: "reader_at (example_env twins) (input_pdf example_self) = Some (pages twins)"
    by (simp add: example_self_fields example_reader)
  have nonempty: "extract_outline (example_env twins) (input_pdf example_self) \<noteq> []"
    by (simp add: example_self_fields twins_outline)
  have ord: "?ord = ordered_sections (example_env twins)
        (extract_outline (example_env twins) (input_pdf example_self))"
    by (simp add: example_self_fields twins_outline twins_ordered)
  have secs: "?secs = with_end ?ord (pages twins)"
    by (simp add: with_end_def twins_def)
  have rounds: "\<forall>i < length ?ord.
      round_succeeds (example_env twins) example_self (pages twins) ?secs i"
    using ord secs by (intro example_rounds_succeed) (simp_all add: example_self_fields)
  have "[0..<length ?ord] = [0, 1]" by (simp add: upt_rec)
  with written_of_run[OF ex reader nonempty ord secs rounds]
  show ?thesis
    by (simp add: section_range_def name_01 name_02) (simp add: twins_def upt_rec)
qed

text \<open>
  Claim C3 says that two bookmarks on the same page leave one section and one file. The
  deduplication is over the pair of title and page, so it holds only for bookmarks that
  also share the title: the two bookmarks of \<open>twins\<close>, A and B on page 2, stay two
  sections, and the file of A has no pages.
\<close>

theorem same_page_two_titles_counterexample:
  "extract_outline (example_env twins) (py ''book.pdf'') = [(py ''A'', 2), (py ''B'', 2)]
   \<and> sections_at 2 (ordered_sections (example_env twins)
         (extract_outline (example_env twins) (py ''book.pdf'')))
       = [(py ''A'', 2), (py ''B'', 2)]
   \<and> written_files (fst (split_pdf (example_env twins) example_self))
       = [(py ''01_A.pdf'', []), (py ''02_B.pdf'', [12, 13])]"
  by (simp add: twins_outline twins_ordered twins_files sections_at_def)

text \<open>
  Claim C3, amended. When every bookmark that resolves to the page \<open>p\<close> has the same
  title \<open>t\<close> (the same bookmark twice, say), the sorted sequence holds exactly one
  section for that page; exactly one round of the splitter starts at \<open>p\<close>; its range
  ends at a strictly larger boundary; and when its page copy and its write succeed, its
  file holds the pages from \<open>p\<close> up to that boundary, at least one. The page count is
  that of the one document: the reader presents every page that the resolver saw.
\<close>

theorem same_title_one_section:
  assumes "pdf_at e path = Some doc"
    and "iterates_set (set_iter e) (extract_outline e path)"
    and "(t, p) \<in> set (extract_outline e path)"
    and "\<forall>s \<in> set (extract_outline e path). snd s = p \<longrightarrow> fst s = t"
    and "ord = ordered_sections e (extract_outline e path)"
    and "secs = with_end ord pgs"
    and "reader_at e path = Some pgs"
    and "length (pages doc) \<le> length pgs"
  shows "sections_at p ord = [(t, p)]
    \<and> (\<exists>i < length ord.
          ord ! i = (t, p)
          \<and> (\<forall>j < length ord. fst (section_range secs j) = p \<longrightarrow> j = i)
          \<and> fst (section_range secs i) = p
          \<and> p < snd (section_range secs i)
          \<and> ((\<forall>k \<in> set [p..<snd (section_range secs i)]. can_copy e k)
               \<and> can_write e (path_join e (output_dir self) (output_filename e i t)) \<longrightarrow>
               written_files (split_section e self pgs secs i)
                 = [(output_filename e i t,
                     map ((!) pgs) [p..<snd (section_range secs i)])]))"
proof -
  have same: "set ord = set (extract_outline e path)"
    unfolding assms(5) using assms(2) by (rule set_ordered)
  have dist: "distinct ord"
    unfolding assms(5) using assms(2) by (rule distinct_ordered)
  have srt: "sorted (map snd ord)"
    unfolding assms(5) by (rule sorted_ordered)
  have "\<forall>s \<in> set ord. snd s < length (pages doc)"
    using same extract_outline_bound[OF assms(1)] by auto
  with assms(8) have below: "\<forall>s \<in> set ord. snd s < length pgs"
    by auto
  then have le: "\<forall>s \<in> set ord. snd s \<le> length pgs"
    by (auto simp: less_imp_le)
  have only: "s = (t, p)" if "s \<in> set ord" and "snd s = p" for s
    using that assms(4) same by (cases s) auto
  have "set (filter (\<lambda>s. snd s = p) ord) = {(t, p)}"
  proof
    show "set (filter (\<lambda>s. snd s = p) ord) \<subseteq> {(t, p)}"
      using only by auto
    have "(t, p) \<in> set ord" using assms(3) same by simp
    then show "{(t, p)} \<subseteq> set (filter (\<lambda>s. snd s = p) ord)"
      by simp
  qed
  with dist have one: "filter (\<lambda>s. snd s = p) ord = [(t, p)]"
    by (intro distinct_singleton) simp_all
  have "(t, p) \<in> set ord" using assms(3) same by simp
  then obtain i where i: "i < length ord" "ord ! i = (t, p)"
    unfolding in_set_conv_nth by blast
  have start: "fst (section_range secs j) = snd (ord ! j)" if "j < length ord" for j
    using that by (simp add: section_range_def assms(6) with_end_nth)
  have unique: "j = i" if "j < length ord" and "fst (section_range secs j) = p" for j
  proof -
    from that have "snd (ord ! j) = p" by (simp add: start)
    with that(1) have "ord ! j = (t, p)" by (intro only) simp_all
    with i have "ord ! j = ord ! i" by simp
    with nth_eq_iff_index_eq[OF dist that(1) i(1)] show ?thesis by simp
  qed
  have longer: "p < snd (section_range secs i)"
  proof (cases "Suc i < length ord")
    case True
    then have next_start: "snd (section_range secs i) = snd (ord ! Suc i)"
      by (simp add: section_range_def assms(6) with_end_nth)
    have "map snd ord ! i \<le> map snd ord ! Suc i"
      using srt True by (intro sorted_nth_mono) simp_all
    with i True have "p \<le> snd (ord ! Suc i)" by simp
    moreover have "snd (ord ! Suc i) \<noteq> p"
    proof
      assume "snd (ord ! Suc i) = p"
      with True have "fst (section_range secs (Suc i)) = p" by (simp add: start)
      with True have "Suc i = i" by (intro unique)
      then show False by simp
    qed
    ultimately show ?thesis by (simp add: next_start)
  next
    case False
    with i(1) have "Suc i = length ord" by simp
    then have "snd (section_range secs i) = length pgs"
      by (simp add: section_range_def assms(6) with_end_def nth_append)
    moreover have "p < length pgs"
    proof -
      have "ord ! i \<in> set ord" using i(1) by simp
      with below have "snd (ord ! i) < length pgs" by blast
      with i(2) show ?thesis by simp
    qed
    ultimately show ?thesis by simp
  qed
  have wrote: "written_files (split_section e self pgs secs i)
                 = [(output_filename e i t,
                     map ((!) pgs) [p..<snd (section_range secs i)])]"
    if "\<forall>k \<in> set [p..<snd (section_range secs i)]. can_copy e k"
      and "can_write e (path_join e (output_dir self) (output_filename e i t))"
  proof -
    have title: "fst (secs ! i) = t"
      using i by (simp add: assms(6) with_end_nth)
    have from_p: "fst (section_range secs i) = p"
      using i by (simp add: start)
    have "snd (section_range secs i) \<le> length pgs"
      unfolding assms(6) using le i(1) by (rule range_end_bound)
    then have "round_succeeds e self pgs secs i"
      using that by (intro round_succeedsI) (simp_all add: title from_p)
    then show ?thesis by (simp add: split_section_written title from_p)
  qed
  have starts: "fst (section_range secs i) = p" using i by (simp add: start)
  have "\<exists>i < length ord.
          ord ! i = (t, p)
          \<and> (\<forall>j < length ord. fst (section_range secs j) = p \<longrightarrow> j = i)
          \<and> fst (section_range secs i) = p
          \<and> p < snd (section_range secs i)
          \<and> ((\<forall>k \<in> set [p..<snd (section_range secs i)]. can_copy e k)
               \<and> can_write e (path_join e (output_dir self) (output_filename e i t)) \<longrightarrow>
               written_files (split_section e self pgs secs i)
                 = [(output_filename e i t,
                     map ((!) pgs) [p..<snd (section_range secs i)])])"
  proof (intro exI[of _ i] conjI allI impI)
    show "i < length ord" by (rule i(1))
    show "ord ! i = (t, p)" by (rule i(2))
    show "j = i" if "j < length ord" and "fst (section_range secs j) = p" for j
      using that by (rule unique)
    show "fst (section_range secs i) = p" by (rule starts)
    show "p < snd (section_range secs i)" by (rule longer)
    show "written_files (split_section e self pgs secs i)
                 = [(output_filename e i t,
                     map ((!) pgs) [p..<snd (section_range secs i)])]"
      if "(\<forall>k \<in> set [p..<snd (section_range secs i)]. can_copy e k)
            \<and> can_write e (path_join e (output_dir self) (output_filename e i t))"
      using that by (intro wrote) simp_all
  qed
  with one show ?thesis unfolding sections_at_def by (rule conjI)
qed

lemma repeated_outline:
  "extract_outline (example_env repeated) (py ''book.pdf'')
     = [(py ''A'', 2), (py ''A'', 2), (py ''B'', 3)]"
  by (simp add: extract_outline_def example_env_def repeated_def bookmark_def py_def)

text \<open>On \<open>repeated\<close> the page 2 has the single section A.\<close>

theorem same_title_one_section_witness:
  "pdf_at (example_env repeated) (py ''book.pdf'') = Some repeated
   \<and> reader_at (example_env repeated) (py ''book.pdf'') = Some (pages repeated)
   \<and> iterates_set (set_iter (example_env repeated))
        (extract_outline (example_env repeated) (py ''book.pdf''))
   \<and> extract_outline (example_env repeated) (py ''book.pdf'')
        = [(py ''A'', 2), (py ''A'', 2), (py ''B'', 3)]
   \<and> sections_at 2 (ordered_sections (example_env repeated)
         (extract_outline (example_env repeated) (py ''book.pdf''))) = [(py ''A'', 2)]"
proof -
  have found: "(py ''A'', 2) \<in> set (extract_outline (example_env repeated) (py ''book.pdf''))"
    by (simp add: repeated_outline)
  have one_title: "\<forall>s \<in> set (extract_outline (example_env repeated) (py ''book.pdf'')).
      snd s = 2 \<longrightarrow> fst s = py ''A''"
    by (simp add: repeated_outline)
  have same_count: "length (pages repeated) \<le> length (pages repeated)" by simp
  from same_title_one_section[OF example_at set_iter_example found one_title refl refl
      example_reader same_count]
  have "sections_at 2 (ordered_sections (example_env repeated)
         (extract_outline (example_env repeated) (py ''book.pdf''))) = [(py ''A'', 2)]"
    by (rule conjunct1)
  with example_at example_reader set_iter_example repeated_outline
  show ?thesis by blast
qed

subsection \<open>Two runs on the same input\<close>

lemma extract_outline_set_iter [simp]:
  "extract_outline (e\<lparr>set_iter := it\<rparr>) path = extract_outline e path"
  by (simp add: extract_outline_def)

lemma output_filename_set_iter [simp]:
  "output_filename (e\<lparr>set_iter := it\<rparr>) i t = output_filename e i t"
  by (simp add: output_filename_def sanitize_filename_def)

lemma add_pages_set_iter [simp]:
  "add_pages (e\<lparr>set_iter := it\<rparr>) pgs ks = add_pages e pgs ks"
  by (induction ks) simp_all

lemma split_section_set_iter [simp]:
  "split_section (e\<lparr>set_iter := it\<rparr>) = split_section e"
  by (intro ext) (simp add: split_section_def Let_def split: prod.splits sum.splits)

lemma new_splitter_set_iter [simp]:
  "new_splitter (e\<lparr>set_iter := it\<rparr>) a b c = new_splitter e a b c"
  by (simp add: new_splitter_def)

lemma format_exc_set_iter [simp]:
  "format_exc (e\<lparr>set_iter := it\<rparr>) ex = format_exc e ex"
  by (simp add: format_exc_def)

lemma sorted_order_unique:
  assumes "iterates_set it1 secs" and "iterates_set it2 secs" and "inj_on snd (set secs)"
  shows "sort_key snd (it1 secs) = sort_key snd (it2 secs)"
proof (rule map_sorted_distinct_set_unique[where f = snd])
  show "inj_on snd (set (sort_key snd (it1 secs)) \<union> set (sort_key snd (it2 secs)))"
    using assms by (simp add: iterates_set_def)
  show "sorted (map snd (sort_key snd (it1 secs)))" by simp
  show "sorted (map snd (sort_key snd (it2 secs)))" by simp
  show "distinct (map snd (sort_key snd (it1 secs)))"
    using assms(1,3) by (simp add: distinct_map iterates_set_def)
  show "distinct (map snd (sort_key snd (it2 secs)))"
    using assms(2,3) by (simp add: distinct_map iterates_set_def)
  show "set (sort_key snd (it1 secs)) = set (sort_key snd (it2 secs))"
    using assms(1,2) by (simp add: iterates_set_def)
qed

lemma split_pdf_set_iter:
  assumes "iterates_set (set_iter e) (extract_outline e (input_pdf self))"
    and "iterates_set it (extract_outline e (input_pdf self))"
    and "inj_on snd (set (extract_outline e (input_pdf self)))"
  shows "split_pdf (e\<lparr>set_iter := it\<rparr>) self = split_pdf e self"
proof -
  have "ordered_sections (e\<lparr>set_iter := it\<rparr>) (extract_outline e (input_pdf self))
          = ordered_sections e (extract_outline e (input_pdf self))"
    unfolding ordered_sections_def using sorted_order_unique[OF assms(2,1,3)] by simp
  then show ?thesis by (simp add: split_pdf_def Let_def split: option.splits)
qed

text \<open>
  Claim C6, amended. Two runs on the same input, in surroundings that differ at most in
  the order in which the set of sections is iterated, give the same sorted sequence and
  the same events (the same files with the same names and pages, the same lines), as long
  as no two distinct resolved sections share a page index.
\<close>

theorem runs_agree_without_ties:
  assumes "self = new_splitter e input_pdf0 output_dir0 debug0"
    and "iterates_set (set_iter e) (extract_outline e (input_pdf self))"
    and "iterates_set it (extract_outline e (input_pdf self))"
    and "inj_on snd (set (extract_outline e (input_pdf self)))"
  shows "ordered_sections (e\<lparr>set_iter := it\<rparr>) (extract_outline e (input_pdf self))
           = ordered_sections e (extract_outline e (input_pdf self))
    \<and> init (e\<lparr>set_iter := it\<rparr>) input_pdf0 output_dir0 debug0
           = init e input_pdf0 output_dir0 debug0"
proof -
  have "ordered_sections (e\<lparr>set_iter := it\<rparr>) (extract_outline e (input_pdf self))
          = ordered_sections e (extract_outline e (input_pdf self))"
    unfolding ordered_sections_def using sorted_order_unique[OF assms(3,2,4)] by simp
  moreover have "split_pdf (e\<lparr>set_iter := it\<rparr>) self = split_pdf e self"
    using assms(2,3,4) by (rule split_pdf_set_iter)
  then have "init (e\<lparr>set_iter := it\<rparr>) input_pdf0 output_dir0 debug0
           = init e input_pdf0 output_dir0 debug0"
    by (simp add: init_def assms(1)[symmetric] Let_def split: prod.splits option.splits)
  ultimately show ?thesis by simp
qed


lemma example_new_splitter:
  "new_splitter (example_env doc) (py ''book'') (py ''out'') False = example_self"
  by (simp add: new_splitter_def example_env_def example_self_def endswith_def
      ascii_lower_def py_def)

lemma reversed_iterates: "iterates_set reversed_iter secs"
  by (simp add: iterates_set_def reversed_iter_def)

text \<open>On \<open>book\<close> the reversed iteration changes nothing.\<close>

theorem runs_agree_without_ties_witness:
  "iterates_set (set_iter (example_env book))
      (extract_outline (example_env book) (py ''book.pdf''))
   \<and> iterates_set reversed_iter (extract_outline (example_env book) (py ''book.pdf''))
   \<and> inj_on snd (set (extract_outline (example_env book) (py ''book.pdf'')))
   \<and> init (other_env book) (py ''book'') (py ''out'') False
       = init (example_env book) (py ''book'') (py ''out'') False"
proof -
  have self: "example_self = new_splitter (example_env book) (py ''book'') (py ''out'') False"
    by (simp add: example_new_splitter)
  have it1: "iterates_set (set_iter (example_env book))
      (extract_outline (example_env book) (input_pdf example_self))"
    by (rule set_iter_example)
  have it2: "iterates_set reversed_iter
      (extract_outline (example_env book) (input_pdf example_self))"
    by (rule reversed_iterates)
  have no_ties: "inj_on snd (set (extract_outline (example_env book) (input_pdf example_self)))"
    unfolding example_self_fields book_outline by simp
  from runs_agree_without_ties[OF self it1 it2 no_ties]
  have "init (other_env book) (py ''book'') (py ''out'') False
       = init (example_env book) (py ''book'') (py ''out'') False"
    by (simp add: other_env_def)
  with it1 it2 no_ties show ?thesis by (simp add: example_self_fields)
qed

lemma name_01B: "output_filename (example_env doc) 0 (py ''B'') = py ''01_B.pdf''"
  by (simp add: output_filename_def zfill_def str_nat.simps sanitize_filename_def
      rstrip_chars_def strip_def rstrip_def invalid_chars_def example_env_def
      unicode_isspace_def py_def)

lemma name_02A: "output_filename (example_env doc) (Suc 0) (py ''A'') = py ''02_A.pdf''"
  by (simp add: output_filename_def zfill_def str_nat.simps sanitize_filename_def
      rstrip_chars_def strip_def rstrip_def invalid_chars_def example_env_def
      unicode_isspace_def py_def)

lemma twins_reordered:
  "ordered_sections (other_env twins) [(py ''A'', 2), (py ''B'', 2)]
     = [(py ''B'', 2), (py ''A'', 2)]"
  by (simp add: ordered_sections_def other_env_def reversed_iter_def py_def)

lemma twins_files_reordered:
  "written_files (fst (split_pdf (other_env twins) example_self))
     = [(py ''01_B.pdf'', []), (py ''02_A.pdf'', [12, 13])]"
proof -
  let ?ord = "[(py ''B'', 2::nat), (py ''A'', 2)]"
  let ?secs = "[(py ''B'', 2::nat), (py ''A'', 2), (py ''End'', 4)]"
  have ex: "path_exists (other_env twins) (input_pdf example_self)"
    by (simp add: example_self_fields other_env_def example_exists)
  have at: "pdf_at (other_env twins) (input_pdf example_self) = Some twins"
    by (simp add: example_self_fields other_env_def example_at)
  have iter: "iterates_set (set_iter (other_env twins))
      (extract_outline (other_env twins) (input_pdf example_self))"
    by (simp add: other_env_def reversed_iterates)
  have nonempty: "extract_outline (other_env twins) (input_pdf example_self) \<noteq> []"
    by (simp add: example_self_fields other_env_def twins_outline)
  have ord: "?ord = ordered_sections (other_env twins)
        (extract_outline (other_env twins) (input_pdf example_self))"
    using twins_reordered by (simp add: example_self_fields other_env_def twins_outline)
  have secs: "?secs = with_end ?ord (pages twins)"
    by (simp add: with_end_def twins_def)
  have reader: "reader_at (other_env twins) (input_pdf example_self) = Some (pages twins)"
    by (simp add: example_self_fields other_env_def example_reader)
  have same_count: "length (pages twins) \<le> length (pages twins)" by simp
  have copies: "\<forall>k. can_copy (other_env twins) k"
    by (simp add: other_env_def example_can_copy)
  have writes: "\<forall>p. can_write (other_env twins) p"
    by (simp add: other_env_def example_can_write)
  have rounds: "\<forall>i < length ?ord.
      round_succeeds (other_env twins) example_self (pages twins) ?secs i"
    by (rule rounds_succeed[OF at same_count iter ord secs copies writes])
  have "[0..<length ?ord] = [0, 1]" by (simp add: upt_rec)
  with written_of_run[OF ex reader nonempty ord secs rounds]
  show ?thesis
    by (simp add: section_range_def other_env_def name_01B name_02A)
       (simp add: twins_def upt_rec)
qed

text \<open>
  Claim C6 says that the sorted sequence, the order among sections of equal page index
  included, is the same in every run. The sort is stable and keeps tied sections in the
  order of the set's iteration, which nothing in the source fixes: on \<open>twins\<close>, the two
  iteration orders of the set give the sequences A, B and B, A, and with them different
  files.
\<close>

theorem tie_order_differs_counterexample:
  "iterates_set (set_iter (example_env twins))
      (extract_outline (example_env twins) (py ''book.pdf''))
   \<and> iterates_set (set_iter (other_env twins))
      (extract_outline (other_env twins) (py ''book.pdf''))
   \<and> ordered_sections (example_env twins)
        (extract_outline (example_env twins) (py ''book.pdf''))
       = [(py ''A'', 2), (py ''B'', 2)]
   \<and> ordered_sections (other_env twins)
        (extract_outline (other_env twins) (py ''book.pdf''))
       = [(py ''B'', 2), (py ''A'', 2)]
   \<and> written_files (fst (split_pdf (example_env twins) example_self))
       = [(py ''01_A.pdf'', []), (py ''02_B.pdf'', [12, 13])]
   \<and> written_files (fst (split_pdf (other_env twins) example_self))
       = [(py ''01_B.pdf'', []), (py ''02_A.pdf'', [12, 13])]"
proof -
  have "extract_outline (other_env twins) (py ''book.pdf'') = [(py ''A'', 2), (py ''B'', 2)]"
    by (simp add: other_env_def twins_outline)
  moreover have "iterates_set (set_iter (other_env twins)) secs" for secs
    by (simp add: other_env_def reversed_iterates)
  ultimately show ?thesis
    by (simp add: set_iter_example twins_outline twins_ordered twins_reordered
        twins_files twins_files_reordered)
qed

subsection \<open>A missing input file\<close>

lemma py_append: "py (a @ b) = py a @ py b"
  by (simp add: py_def)

lemma sublist_suffix_part: "sublist b (a @ b @ c)"
  unfolding sublist_def by blast

text \<open>
  Claim C7. When the input path, after \<^verbatim>\<open>normpath\<close> and the \<^verbatim>\<open>.pdf\<close> handling, does not
  exist, \<^verbatim>\<open>split_pdf\<close> raises \<^verbatim>\<open>FileNotFoundError\<close> before anything else happens: the run
  makes no directory and writes no file, and what it prints contains the message
  \<^verbatim>\<open>Input PDF not found: \<close> followed by the path (on the last line of the traceback in
  debug mode, after \<^verbatim>\<open>Error splitting PDF: \<close> otherwise).
\<close>

theorem missing_input_aborts:
  assumes "self = new_splitter e input_pdf0 output_dir0 debug0"
    and "\<not> path_exists e (input_pdf self)"
  shows "split_pdf e self
           = ([], Some (FileNotFoundError (py ''Input PDF not found: '' @ input_pdf self)))
    \<and> made_dirs (init e input_pdf0 output_dir0 debug0) = []
    \<and> written_files (init e input_pdf0 output_dir0 debug0) = []
    \<and> printed (init e input_pdf0 output_dir0 debug0)
        = (if debug0
           then [py ''Full error traceback:'',
                 traceback_frames e @ py ''FileNotFoundError: ''
                   @ (py ''Input PDF not found: '' @ input_pdf self) @ [10]]
           else [py ''Error splitting PDF: '' @ (py ''Input PDF not found: '' @ input_pdf self)])
    \<and> list_ex (sublist (py ''Input PDF not found: '' @ input_pdf self))
          (printed (init e input_pdf0 output_dir0 debug0))"
proof -
  let ?msg = "py ''Input PDF not found: '' @ input_pdf self"
  have raised: "split_pdf e self = ([], Some (FileNotFoundError ?msg))"
    using assms(2) by (simp add: split_pdf_def)
  have dbg: "debug self = debug0"
    by (simp add: assms(1) new_splitter_def Let_def)
  have name: "exception_name (FileNotFoundError ?msg) @ py '': '' = py ''FileNotFoundError: ''"
    by (simp add: py_def)
  have events: "init e input_pdf0 output_dir0 debug0
        = (if debug0
           then [Print (py ''Full error traceback:''),
                 Print (traceback_frames e @ py ''FileNotFoundError: '' @ ?msg @ [10])]
           else [Print (py ''Error splitting PDF: '' @ ?msg)])"
    using name
    by (simp add: init_def assms(1)[symmetric] raised dbg format_exc_def del: exception_name.simps)
  have in_traceback:
    "sublist ?msg (traceback_frames e @ py ''FileNotFoundError: '' @ ?msg @ [10])"
    using sublist_suffix_part[of ?msg "traceback_frames e @ py ''FileNotFoundError: ''" "[10]"]
    by simp
  have in_line: "sublist ?msg (py ''Error splitting PDF: '' @ ?msg)"
    using sublist_suffix_part[of ?msg "py ''Error splitting PDF: ''" "[]"] by simp
  show ?thesis
  proof (cases debug0)
    case True
    with events raised in_traceback show ?thesis by simp
  next
    case False
    with events raised in_line show ?thesis by simp
  qed
qed

text \<open>The input \<^verbatim>\<open>missing\<close> becomes \<^verbatim>\<open>missing.pdf\<close>, which does not exist.\<close>

theorem missing_input_aborts_witness:
  "\<not> path_exists (example_env book)
        (input_pdf (new_splitter (example_env book) (py ''missing'') (py ''out'') False))
   \<and> made_dirs (init (example_env book) (py ''missing'') (py ''out'') False) = []
   \<and> written_files (init (example_env book) (py ''missing'') (py ''out'') False) = []
   \<and> printed (init (example_env book) (py ''missing'') (py ''out'') False)
       = [py ''Error splitting PDF: Input PDF not found: missing.pdf'']"
proof -
  have path: "input_pdf (new_splitter (example_env book) (py ''missing'') (py ''out'') False)
      = py ''missing.pdf''"
    by (simp add: new_splitter_def example_env_def endswith_def ascii_lower_def py_def)
  have missing: "\<not> path_exists (example_env book)
        (input_pdf (new_splitter (example_env book) (py ''missing'') (py ''out'') False))"
    unfolding path by (simp add: example_env_def py_def)
  have line: "py ''Error splitting PDF: '' @ py ''Input PDF not found: '' @ py ''missing.pdf''
      = py ''Error splitting PDF: Input PDF not found: missing.pdf''"
    by (simp add: py_def)
  from missing_input_aborts[OF refl missing] missing line
  show ?thesis by (simp add: path)
qed

subsection \<open>A bookmark that raises\<close>

lemma intro_book_outline:
  "extract_outline (example_env intro_book) (py ''book.pdf'') = []"
  by (simp add: extract_outline_def example_env_def intro_book_def)

text \<open>
  Claim C2 says that a bookmark whose processing fails contributes nothing and that its
  siblings are still processed. The source does not do that: on \<open>intro_book\<close> the first
  bookmark raises \<^verbatim>\<open>TypeError\<close>, the \<^verbatim>\<open>except\<close> clause is outside the \<^verbatim>\<open>for\<close> loop, and
  the bookmark A after it, which alone resolves to page 2, is never looked at. The
  resolver returns nothing and the run reports that there is no outline.
\<close>

theorem failing_bookmark_hides_later_siblings:
  "process_item (Outline (Some (py ''Intro'')) (Some DestUnsized) (Some [])) (pages intro_book)
     = Inl TypeError
   \<and> process_outlines [bookmark ''A'' 12] (pages intro_book) = [(py ''A'', 2)]
   \<and> process_outlines
        [Outline (Some (py ''Intro'')) (Some DestUnsized) (Some []), bookmark ''A'' 12]
        (pages intro_book) = []
   \<and> init (example_env intro_book) (py ''book'') (py ''out'') False
       = [MakeDirs (py ''out''),
          Print (py ''No valid outline found in PDF. Cannot split.''),
          Print (py ''Successfully split PDF into sections in: out'')]"
proof -
  have "init (example_env intro_book) (py ''book'') (py ''out'') False
       = [MakeDirs (py ''out''),
          Print (py ''No valid outline found in PDF. Cannot split.''),
          Print (py ''Successfully split PDF into sections in: '' @ py ''out'')]"
    by (simp add: init_def example_new_splitter split_pdf_def example_self_fields
        example_exists intro_book_outline)
  moreover have "py ''Successfully split PDF into sections in: '' @ py ''out''
      = py ''Successfully split PDF into sections in: out''"
    by (simp add: py_def)
  ultimately show ?thesis
    by (simp add: intro_book_def bookmark_def)
qed

end
